theory Spec2Isabelle
  imports Complex_Main "HOL-Library.Word"
begin

section \<open>dm\_collector\_c: the Python extension module of the diagnostic collector\<close>

text \<open>
  A shallow embedding of \<^verbatim>\<open>dm_collector_c/dm_collector_c.cpp\<close>. The headers
  \<^verbatim>\<open>consts.h\<close>, \<^verbatim>\<open>hdlc.h\<close>, \<^verbatim>\<open>log_config.h\<close> and \<^verbatim>\<open>log_packet.h\<close> are not part
  of the sources at hand, so what they declare is taken as a parameter: the functions and
  constants of the outbound side in the record \<open>env\<close>, those of the inbound side in the
  record \<open>rx_env\<close>.
\<close>

subsection \<open>Data\<close>

type_synonym byte = "8 word"
type_synonym bytes = "byte list"

text \<open>\<^verbatim>\<open>IdVector\<close> is a \<^verbatim>\<open>std::vector<int>\<close>; ids are only compared, never computed with.\<close>

type_synonym IdVector = "int list"

text \<open>
  \<^verbatim>\<open>BinaryBuffer\<close> is a \<^verbatim>\<open>std::pair<char *, int>\<close>: \<open>first\<close> is \<open>None\<close> for the null
  pointer, otherwise the bytes it points to; \<open>second\<close> is the length.
\<close>

record BinaryBuffer =
  first :: "bytes option"
  second :: int

text \<open>The operations of \<^verbatim>\<open>encode_log_config\<close> that the module uses.\<close>

datatype LogConfigOp = DISABLE | DEBUG_LTE_ML1 | DEBUG_WCDMA_L1 | SET_MASK

text \<open>An entry of the table \<^verbatim>\<open>LogPacketTypeID_To_Name\<close>.\<close>

record ValueName =
  val :: int
  name :: string

record env =
  LogPacketTypeID_To_Name :: "ValueName list"
  Modem_debug_message :: int
  get_equip_id :: "int \<Rightarrow> int"
  encode_log_config :: "LogConfigOp \<Rightarrow> IdVector \<Rightarrow> BinaryBuffer"
  encode_hdlc_frame :: "bytes \<Rightarrow> int \<Rightarrow> bytes"

text \<open>
  A Python object handed in as port or file: whether it has the attributes \<^verbatim>\<open>read\<close> and
  \<^verbatim>\<open>write\<close>, and the byte strings its \<^verbatim>\<open>write\<close> method has received so far.
\<close>

record py_object =
  has_read :: bool
  has_write :: bool
  written :: "bytes list"

text \<open>An element of the \<^verbatim>\<open>type_names\<close> argument, and the argument itself.\<close>

datatype py_item = PyString string | PyNonString

datatype py_arg = PySequence "py_item list" | PyNonSequence

text \<open>
  How a call can fail: the three Python exceptions the module raises, and the null
  dereference of \<^verbatim>\<open>Py_DECREF\<close> on the result of a method call that did not take place.
\<close>

datatype failure = TypeError | ValueError | RuntimeError | NullDereference

subsection \<open>sort\_type\_ids\<close>

text \<open>\<^verbatim>\<open>IdVector(v.begin() + i, v.begin() + j)\<close>\<close>

definition subvector :: "'a list \<Rightarrow> nat \<Rightarrow> nat \<Rightarrow> 'a list" where
  "subvector v i j = take (j - i) (drop i v)"

text \<open>
  The bucketing loop, with the loop variables \<open>i\<close>, \<open>j\<close>, \<open>last_equip_id\<close> and
  \<open>out_vectors\<close> as arguments; it returns \<open>i\<close>, \<open>j\<close> and \<open>out_vectors\<close> at the exit.
\<close>

function bucket_loop ::
  "(int \<Rightarrow> int) \<Rightarrow> IdVector \<Rightarrow> nat \<Rightarrow> nat \<Rightarrow> int \<Rightarrow> IdVector list \<Rightarrow> nat \<times> nat \<times> IdVector list"
where
  "bucket_loop ge type_ids i j last_equip_id out_vectors =
     (if j < length type_ids then
        (if j \<noteq> 0 \<and> last_equip_id \<noteq> ge (type_ids ! j)
         then bucket_loop ge type_ids j (j + 1) (ge (type_ids ! j))
                (out_vectors @ [subvector type_ids i j])
         else bucket_loop ge type_ids i (j + 1) (ge (type_ids ! j)) out_vectors)
      else (i, j, out_vectors))"
  by pat_completeness auto
termination
  by (relation "measure (\<lambda>(ge, type_ids, i, j, l, out). length type_ids - j)") auto

declare bucket_loop.simps [simp del]

text \<open>
  \<^verbatim>\<open>sort_type_ids\<close> sorts the vector, drops adjacent duplicates and fills
  \<open>out_vectors\<close>; the result is the pair of the vector as it is left and \<open>out_vectors\<close>.
\<close>

definition sort_type_ids :: "(int \<Rightarrow> int) \<Rightarrow> IdVector \<Rightarrow> IdVector \<times> IdVector list" where
  "sort_type_ids ge type_ids0 =
     (let type_ids = remdups_adj (sort type_ids0) in
      case bucket_loop ge type_ids 0 0 (- 1) [] of
        (i, j, out_vectors) \<Rightarrow>
          (type_ids,
           if i \<noteq> j then out_vectors @ [subvector type_ids i j] else out_vectors))"

subsection \<open>Capability checks and send\_msg\<close>

definition check_file :: "py_object \<Rightarrow> bool" where
  "check_file obj = has_write obj"

definition check_serial_port :: "py_object \<Rightarrow> bool" where
  "check_serial_port obj = has_read obj"

text \<open>
  \<^verbatim>\<open>send_msg\<close> frames the buffer and calls the method \<^verbatim>\<open>write\<close> of the object. When the
  object has no such attribute the call yields the null pointer, which \<^verbatim>\<open>Py_DECREF\<close>
  dereferences. A \<^verbatim>\<open>write\<close> method that is present is taken to accept the frame.
\<close>

definition send_msg :: "env \<Rightarrow> py_object \<Rightarrow> bytes \<Rightarrow> int \<Rightarrow> (failure + bool) \<times> py_object" where
  "send_msg e serial_port b len =
     (let frame = encode_hdlc_frame e b len in
      if has_write serial_port
      then (Inr True, serial_port\<lparr>written := written serial_port @ [frame]\<rparr>)
      else (Inl NullDereference, serial_port))"

subsection \<open>Resolving the type names\<close>

text \<open>
  Modelled from the spec: \<^verbatim>\<open>find_ids\<close> is declared in \<^verbatim>\<open>log_config.h\<close>, which is missing.
  It resolves a name to the ids the table lists under that name; the call site shows that
  the ids are added to the vector passed in and that their number is returned.
\<close>

definition find_ids :: "ValueName list \<Rightarrow> string \<Rightarrow> IdVector \<Rightarrow> int \<times> IdVector" where
  "find_ids id_to_name nm out_ids =
     (let found = map val (filter (\<lambda>entry. name entry = nm) id_to_name)
      in (int (length found), out_ids @ found))"

text \<open>
  The first loop of \<^verbatim>\<open>generate_log_config_msgs\<close>: \<open>Inl ValueError\<close> is the early
  \<^verbatim>\<open>return false\<close> after \<^verbatim>\<open>PyErr_SetString(PyExc_ValueError, ...)\<close>.
\<close>

fun resolve_names :: "env \<Rightarrow> py_item list \<Rightarrow> IdVector \<Rightarrow> failure + IdVector" where
  "resolve_names e [] type_ids = Inr type_ids"
| "resolve_names e (PyString nm # items) type_ids =
     (case find_ids (LogPacketTypeID_To_Name e) nm type_ids of
        (cnt, type_ids') \<Rightarrow>
          if cnt = 0 then Inl ValueError else resolve_names e items type_ids')"
| "resolve_names e (PyNonString # items) type_ids = resolve_names e items type_ids"

subsection \<open>The debug message id\<close>

text \<open>
  The search loop for \<^verbatim>\<open>Modem_debug_message\<close>: the index of its first occurrence, or the
  length of the vector (\<^verbatim>\<open>type_ids.end()\<close>) when there is none.
\<close>

fun find_debug_ind :: "int \<Rightarrow> IdVector \<Rightarrow> nat" where
  "find_debug_ind d [] = 0"
| "find_debug_ind d (x # xs) = (if x = d then 0 else Suc (find_debug_ind d xs))"

text \<open>\<^verbatim>\<open>v.erase(v.begin() + k)\<close> removes the one element at position \<open>k\<close>.\<close>

definition erase :: "'a list \<Rightarrow> nat \<Rightarrow> 'a list" where
  "erase v k = take k v @ drop (Suc k) v"

subsection \<open>Encoding and sending the commands\<close>

text \<open>
  The block that the module repeats for every command: encode, test the buffer, send it or
  set \<^verbatim>\<open>RuntimeError\<close>.
\<close>

definition send_log_config ::
  "env \<Rightarrow> LogConfigOp \<Rightarrow> IdVector \<Rightarrow> py_object \<Rightarrow> (failure + bool) \<times> py_object" where
  "send_log_config e opn ids file_or_serial =
     (let buf = encode_log_config e opn ids in
      case first buf of
        None \<Rightarrow> (Inl RuntimeError, file_or_serial)
      | Some b \<Rightarrow>
          if second buf \<noteq> 0 then send_msg e file_or_serial b (second buf)
          else (Inl RuntimeError, file_or_serial))"

text \<open>The last loop of \<^verbatim>\<open>generate_log_config_msgs\<close>, over \<open>type_id_vectors\<close>.\<close>

fun send_set_masks :: "env \<Rightarrow> IdVector list \<Rightarrow> py_object \<Rightarrow> (failure + bool) \<times> py_object" where
  "send_set_masks e [] file_or_serial = (Inr True, file_or_serial)"
| "send_set_masks e (v # vs) file_or_serial =
     (case send_log_config e SET_MASK v file_or_serial of
        (Inl err, obj) \<Rightarrow> (Inl err, obj)
      | (Inr _, obj) \<Rightarrow> send_set_masks e vs obj)"

text \<open>
  \<^verbatim>\<open>generate_log_config_msgs\<close>: \<open>Inr True\<close> is \<^verbatim>\<open>return true\<close>, \<open>Inl err\<close> is
  \<^verbatim>\<open>return false\<close> with the Python error \<open>err\<close> set. The object is returned as the calls
  of its \<^verbatim>\<open>write\<close> method have left it.
\<close>

definition generate_log_config_msgs ::
  "env \<Rightarrow> py_object \<Rightarrow> py_item list \<Rightarrow> (failure + bool) \<times> py_object" where
  "generate_log_config_msgs e file_or_serial type_names =
     (case resolve_names e type_names [] of
        Inl err \<Rightarrow> (Inl err, file_or_serial)
      | Inr type_ids \<Rightarrow>
          let debug_ind = find_debug_ind (Modem_debug_message e) type_ids in
          if debug_ind \<noteq> length type_ids then
            let type_ids' = erase type_ids debug_ind in
            case send_log_config e DEBUG_LTE_ML1 type_ids' file_or_serial of
              (Inl err, obj) \<Rightarrow> (Inl err, obj)
            | (Inr _, obj1) \<Rightarrow>
                (case send_log_config e DEBUG_WCDMA_L1 type_ids' obj1 of
                   (Inl err, obj) \<Rightarrow> (Inl err, obj)
                 | (Inr _, obj2) \<Rightarrow>
                     send_set_masks e (snd (sort_type_ids (get_equip_id e) type_ids')) obj2)
          else send_set_masks e (snd (sort_type_ids (get_equip_id e) type_ids)) file_or_serial)"

subsection \<open>The functions of the module\<close>

text \<open>
  The result is \<open>Inr True\<close> for \<^verbatim>\<open>Py_True\<close>, \<open>Inr False\<close> for \<^verbatim>\<open>Py_False\<close> and \<open>Inl err\<close>
  for a raised exception (or the crash). The arguments are those \<^verbatim>\<open>PyArg_ParseTuple\<close>
  has extracted.
\<close>

definition dm_collector_c_disable_logs :: "env \<Rightarrow> py_object \<Rightarrow> (failure + bool) \<times> py_object" where
  "dm_collector_c_disable_logs e serial_port =
     (if \<not> check_serial_port serial_port then (Inl TypeError, serial_port)
      else
        let buf = encode_log_config e DISABLE [] in
        case first buf of
          None \<Rightarrow> (Inr False, serial_port)
        | Some b \<Rightarrow>
            if second buf = 0 then (Inr False, serial_port)
            else (case send_msg e serial_port b (second buf) of
                    (Inl err, obj) \<Rightarrow> (Inl err, obj)
                  | (Inr _, obj) \<Rightarrow> (Inr True, obj)))"

definition dm_collector_c_enable_logs ::
  "env \<Rightarrow> py_object \<Rightarrow> py_arg \<Rightarrow> (failure + bool) \<times> py_object" where
  "dm_collector_c_enable_logs e serial_port sequence =
     (if \<not> check_serial_port serial_port then (Inl TypeError, serial_port)
      else case sequence of
        PyNonSequence \<Rightarrow> (Inl TypeError, serial_port)
      | PySequence type_names \<Rightarrow>
          (case generate_log_config_msgs e serial_port type_names of
             (Inl err, obj) \<Rightarrow> (Inl err, obj)
           | (Inr _, obj) \<Rightarrow> (Inr True, obj)))"

definition dm_collector_c_generate_diag_cfg ::
  "env \<Rightarrow> py_object \<Rightarrow> py_arg \<Rightarrow> (failure + bool) \<times> py_object" where
  "dm_collector_c_generate_diag_cfg e file sequence =
     (if \<not> check_file file then (Inl TypeError, file)
      else case sequence of
        PyNonSequence \<Rightarrow> (Inl TypeError, file)
      | PySequence type_names \<Rightarrow>
          (case send_log_config e DISABLE [] file of
             (Inl err, obj) \<Rightarrow> (Inl err, obj)
           | (Inr _, obj1) \<Rightarrow>
               (case generate_log_config_msgs e obj1 type_names of
                  (Inl err, obj) \<Rightarrow> (Inl err, obj)
                | (Inr _, obj) \<Rightarrow> (Inr True, obj))))"

subsection \<open>Receiving a log packet\<close>

text \<open>
  What the inbound side takes from \<^verbatim>\<open>hdlc.h\<close>, \<^verbatim>\<open>log_packet.h\<close> and the system clock.
  The state \<open>'s\<close> is everything outside the call: the buffer that \<^verbatim>\<open>feed_binary\<close> fills
  and the clock. \<^verbatim>\<open>get_next_frame\<close> returns its result, the frame, the checksum flag and
  the state it leaves; \<open>'d\<close> is the Python object that \<^verbatim>\<open>decode_log_packet\<close> builds.
\<close>

type_synonym size_t = "64 word"

record ('s, 'd) rx_env =
  gettimeofday :: "'s \<Rightarrow> int \<times> int"
  get_next_frame :: "'s \<Rightarrow> (bool \<times> bytes \<times> bool) \<times> 's"
  is_log_packet :: "bytes \<Rightarrow> bool"
  is_debug_packet :: "bytes \<Rightarrow> bool"
  decode_log_packet :: "bytes \<Rightarrow> size_t \<Rightarrow> bool \<Rightarrow> 'd"

text \<open>Seconds plus microseconds; the rounding of \<^verbatim>\<open>double\<close> is left out.\<close>

definition get_posix_timestamp :: "('s, 'd) rx_env \<Rightarrow> 's \<Rightarrow> real" where
  "get_posix_timestamp rx st =
     (case gettimeofday rx st of
        (tv_sec, tv_usec) \<Rightarrow> real_of_int tv_sec + real_of_int tv_usec / 1000000)"

datatype 'd py_value = Py_None | Decoded 'd | Tuple 'd real

text \<open>The array \<^verbatim>\<open>tmp\<close> as it is initialised.\<close>

definition tmp_header :: bytes where
  "tmp_header = [0x00, 0x00, 0x00, 0x00, 0xeb, 0x1f, 0x00, 0x00, 0x00, 0x00,
                 0x00, 0x00, 0x00, 0x00]"

text \<open>
  The buffer \<open>s\<close> of the debug branch: \<^verbatim>\<open>tmp[2] = (char)(frame.size() + 14)\<close> keeps the low
  eight bits of the sum, then the 14 bytes of \<^verbatim>\<open>tmp\<close> and the frame are copied.
\<close>

definition debug_packet :: "bytes \<Rightarrow> bytes" where
  "debug_packet frame = tmp_header[2 := of_nat (length frame + 14)] @ frame"

definition dm_collector_c_receive_log_packet ::
  "('s, 'd) rx_env \<Rightarrow> bool \<Rightarrow> bool \<Rightarrow> 's \<Rightarrow> 'd py_value \<times> 's" where
  "dm_collector_c_receive_log_packet rx skip_decoding include_timestamp st =
     (let posix_timestamp = (if include_timestamp then get_posix_timestamp rx st else - 1) in
      case get_next_frame rx st of
        ((success, frame, crc_correct), st') \<Rightarrow>
          if success \<and> crc_correct then
            if is_log_packet rx frame then
              let decoded = decode_log_packet rx (drop 2 frame) (of_nat (length frame) - 2)
                              skip_decoding
              in if include_timestamp then (Tuple decoded posix_timestamp, st')
                 else (Decoded decoded, st')
            else if is_debug_packet rx frame then
              let decoded = decode_log_packet rx (debug_packet frame)
                              (of_nat (length frame + 14)) skip_decoding
              in if include_timestamp then (Tuple decoded posix_timestamp, st')
                 else (Decoded decoded, st')
            else (Py_None, st')
          else (Py_None, st'))"

text \<open>
  Modelled from the spec: the layout of the log packet header is declared in
  \<^verbatim>\<open>log_packet.h\<close>, which is missing. The header has little-endian \<open>length\<close> and
  \<open>type_id\<close> fields at fixed offsets; the array \<^verbatim>\<open>tmp\<close> places the length at bytes 2 and 3
  (the byte the code patches is byte 2) and the type id at bytes 4 and 5.
\<close>

definition le16 :: "bytes \<Rightarrow> nat \<Rightarrow> nat" where
  "le16 b off = unat (b ! off) + 256 * unat (b ! (off + 1))"

definition header_log_msg_len :: "bytes \<Rightarrow> nat" where
  "header_log_msg_len b = le16 b 2"

definition header_type_id :: "bytes \<Rightarrow> nat" where
  "header_type_id b = le16 b 4"

subsection \<open>Notions used in the statements\<close>

text \<open>All ids of a vector have the same equipment id.\<close>

definition uniform :: "(int \<Rightarrow> int) \<Rightarrow> IdVector \<Rightarrow> bool" where
  "uniform ge v = (\<forall>x\<in>set v. \<forall>y\<in>set v. ge x = ge y)"

text \<open>The equipment id changes from the end of each vector to the start of the next.\<close>

fun breaks_between :: "(int \<Rightarrow> int) \<Rightarrow> IdVector list \<Rightarrow> bool" where
  "breaks_between ge (v # w # vs) = (ge (last v) \<noteq> ge (hd w) \<and> breaks_between ge (w # vs))"
| "breaks_between ge vs = True"

text \<open>A command is an operation with its ids; it encodes when the buffer passes the test.\<close>

type_synonym command = "LogConfigOp \<times> IdVector"

definition encodes :: "env \<Rightarrow> command \<Rightarrow> bool" where
  "encodes e c =
     (case c of (opn, ids) \<Rightarrow>
        first (encode_log_config e opn ids) \<noteq> None \<and> second (encode_log_config e opn ids) \<noteq> 0)"

text \<open>The frame that \<^verbatim>\<open>send_msg\<close> writes for a command that encodes.\<close>

definition frame_of :: "env \<Rightarrow> command \<Rightarrow> bytes" where
  "frame_of e c =
     (case c of (opn, ids) \<Rightarrow>
        case first (encode_log_config e opn ids) of
          None \<Rightarrow> []
        | Some b \<Rightarrow> encode_hdlc_frame e b (second (encode_log_config e opn ids)))"

text \<open>
  The commands of \<^verbatim>\<open>generate_log_config_msgs\<close> in the order of the code, for the ids the
  names have resolved to.
\<close>

definition enable_commands :: "env \<Rightarrow> IdVector \<Rightarrow> command list" where
  "enable_commands e type_ids =
     (let debug_ind = find_debug_ind (Modem_debug_message e) type_ids in
      if debug_ind \<noteq> length type_ids then
        let type_ids' = erase type_ids debug_ind in
        [(DEBUG_LTE_ML1, type_ids'), (DEBUG_WCDMA_L1, type_ids')] @
        map (Pair SET_MASK) (snd (sort_type_ids (get_equip_id e) type_ids'))
      else map (Pair SET_MASK) (snd (sort_type_ids (get_equip_id e) type_ids)))"

text \<open>Sending a list of commands one after the other, stopping at the first failure.\<close>

fun send_commands :: "env \<Rightarrow> command list \<Rightarrow> py_object \<Rightarrow> (failure + bool) \<times> py_object" where
  "send_commands e [] obj = (Inr True, obj)"
| "send_commands e (c # cs) obj =
     (case send_log_config e (fst c) (snd c) obj of
        (Inl err, obj') \<Rightarrow> (Inl err, obj')
      | (Inr _, obj') \<Rightarrow> send_commands e cs obj')"

fun is_string :: "py_item \<Rightarrow> bool" where
  "is_string (PyString nm) = True"
| "is_string PyNonString = False"

subsection \<open>A small instance\<close>

text \<open>
  A table of four types, the equipment id as bits 12 to 15 of the type id, an encoder that
  lists the operation and the ids, and a framing that appends the flag byte.
\<close>

definition example_table :: "ValueName list" where
  "example_table =
     [\<lparr>val = 0x1FEB, name = ''Modem_debug_message''\<rparr>,
      \<lparr>val = 0xB0C0, name = ''LTE_RRC_OTA_Packet''\<rparr>,
      \<lparr>val = 0xB0E2, name = ''LTE_NAS_ESM_Plain''\<rparr>,
      \<lparr>val = 0x412F, name = ''WCDMA_Signaling''\<rparr>]"

fun example_opcode :: "LogConfigOp \<Rightarrow> byte" where
  "example_opcode DISABLE = 0"
| "example_opcode DEBUG_LTE_ML1 = 1"
| "example_opcode DEBUG_WCDMA_L1 = 2"
| "example_opcode SET_MASK = 3"

definition example_encode :: "LogConfigOp \<Rightarrow> IdVector \<Rightarrow> BinaryBuffer" where
  "example_encode opn ids =
     \<lparr>first = Some (example_opcode opn # map of_int ids), second = 1 + int (length ids)\<rparr>"

definition example_env :: env where
  "example_env =
     \<lparr>LogPacketTypeID_To_Name = example_table,
      Modem_debug_message = 0x1FEB,
      get_equip_id = (\<lambda>type_id. (type_id div 4096) mod 16),
      encode_log_config = example_encode,
      encode_hdlc_frame = (\<lambda>b len. take (nat len) b @ [0x7e])\<rparr>"

text \<open>The same instance with an encoder that never produces a buffer.\<close>

definition failing_env :: env where
  "failing_env = example_env\<lparr>encode_log_config := (\<lambda>opn ids. \<lparr>first = None, second = 0\<rparr>)\<rparr>"

text \<open>The same instance with an encoder that fails on one \<^verbatim>\<open>SET_MASK\<close> command.\<close>

definition selective_env :: env where
  "selective_env = example_env\<lparr>encode_log_config :=
     (\<lambda>opn ids. if opn = SET_MASK \<and> ids = [0xB0C0] then \<lparr>first = Some [], second = 0\<rparr>
                 else example_encode opn ids)\<rparr>"

definition example_port :: py_object where
  "example_port = \<lparr>has_read = True, has_write = True, written = []\<rparr>"

definition example_file :: py_object where
  "example_file = \<lparr>has_read = False, has_write = True, written = []\<rparr>"

definition read_only_object :: py_object where
  "read_only_object = \<lparr>has_read = True, has_write = False, written = []\<rparr>"

text \<open>
  An inbound instance: the state is the clock in microseconds and the list of frames with
  their checksum flags; taking a frame takes five microseconds. A log packet starts with
  the byte 0x10, a debug packet with 0x79.
\<close>

definition example_rx :: "(int \<times> (bytes \<times> bool) list, bytes \<times> nat) rx_env" where
  "example_rx =
     \<lparr>gettimeofday = (\<lambda>st. (fst st div 1000000, fst st mod 1000000)),
      get_next_frame = (\<lambda>st. case snd st of
          [] \<Rightarrow> ((False, [], False), (fst st + 5, []))
        | f # fs \<Rightarrow> ((True, fst f, snd f), (fst st + 5, fs))),
      is_log_packet = (\<lambda>frame. frame \<noteq> [] \<and> hd frame = 0x10),
      is_debug_packet = (\<lambda>frame. frame \<noteq> [] \<and> hd frame = 0x79),
      decode_log_packet = (\<lambda>b len skip. (b, unat len))\<rparr>"
section \<open>Properties\<close>

subsection \<open>The bucketing of sort\_type\_ids\<close>

lemma subvector_append_drop: "i \<le> j \<Longrightarrow> subvector v i j @ drop j v = drop i v"
proof -
  assume "i \<le> j"
  then have "drop j v = drop (j - i) (drop i v)" by simp
  then show ?thesis by (simp only: subvector_def append_take_drop_id)
qed

lemma subvector_same: "subvector v i i = []"
  by (simp add: subvector_def)

lemma length_subvector: "j \<le> length v \<Longrightarrow> length (subvector v i j) = j - i"
  by (simp add: subvector_def)

lemma nth_subvector: "j \<le> length v \<Longrightarrow> k < j - i \<Longrightarrow> subvector v i j ! k = v ! (i + k)"
  by (simp add: subvector_def)

lemma in_set_subvector:
  "j \<le> length v \<Longrightarrow> x \<in> set (subvector v i j) \<Longrightarrow> \<exists>k. i \<le> k \<and> k < j \<and> x = v ! k"
proof -
  assume j: "j \<le> length v" and "x \<in> set (subvector v i j)"
  then obtain n where n: "n < length (subvector v i j)" "x = subvector v i j ! n"
    by (auto simp: in_set_conv_nth)
  with j have nl: "n < j - i" by (simp add: length_subvector)
  with j n have "x = v ! (i + n)" by (simp add: nth_subvector)
  moreover from nl have "i \<le> i + n" "i + n < j" by simp_all
  ultimately show ?thesis by blast
qed

lemma subvector_Nil_iff: "j \<le> length v \<Longrightarrow> subvector v i j = [] \<longleftrightarrow> j \<le> i"
proof -
  assume "j \<le> length v"
  then have "length (subvector v i j) = j - i" by (rule length_subvector)
  then have "length (subvector v i j) = 0 \<longleftrightarrow> j \<le> i" by simp
  then show ?thesis by (simp only: length_0_conv)
qed

lemma hd_subvector: "j \<le> length v \<Longrightarrow> i < j \<Longrightarrow> hd (subvector v i j) = v ! i"
proof -
  assume j: "j \<le> length v" and ij: "i < j"
  then have ne: "subvector v i j \<noteq> []" by (simp add: subvector_Nil_iff)
  then have "hd (subvector v i j) = subvector v i j ! 0" by (rule hd_conv_nth)
  also from j ij have "\<dots> = v ! (i + 0)" by (intro nth_subvector) simp_all
  finally show ?thesis by simp
qed

lemma last_subvector: "j \<le> length v \<Longrightarrow> i < j \<Longrightarrow> last (subvector v i j) = v ! (j - 1)"
proof -
  assume j: "j \<le> length v" and ij: "i < j"
  then have ne: "subvector v i j \<noteq> []" by (simp add: subvector_Nil_iff)
  then have "last (subvector v i j) = subvector v i j ! (length (subvector v i j) - 1)"
    by (rule last_conv_nth)
  also from j have "\<dots> = subvector v i j ! (j - i - 1)" by (simp add: length_subvector)
  also from j ij have "\<dots> = v ! (i + (j - i - 1))" by (intro nth_subvector) simp_all
  also from ij have "i + (j - i - 1) = j - 1" by simp
  finally show ?thesis .
qed

lemma uniform_subvector:
  assumes "j \<le> length v" and "\<forall>k. i \<le> k \<and> k < j \<longrightarrow> ge (v ! k) = l"
  shows "uniform ge (subvector v i j)"
  unfolding uniform_def
proof (intro ballI)
  fix x y
  assume "x \<in> set (subvector v i j)" and "y \<in> set (subvector v i j)"
  with assms(1) obtain a b where "i \<le> a" "a < j" "x = v ! a" "i \<le> b" "b < j" "y = v ! b"
    by (blast dest: in_set_subvector)
  with assms(2) show "ge x = ge y" by simp
qed

lemma bucket_loop_exit:
  "\<not> j < length ids \<Longrightarrow> bucket_loop ge ids i j l out = (i, j, out)"
  by (subst bucket_loop.simps) simp

lemma bucket_loop_break:
  "j < length ids \<Longrightarrow> j \<noteq> 0 \<and> l \<noteq> ge (ids ! j) \<Longrightarrow>
   bucket_loop ge ids i j l out =
   bucket_loop ge ids j (j + 1) (ge (ids ! j)) (out @ [subvector ids i j])"
  by (subst bucket_loop.simps) simp

lemma bucket_loop_continue:
  "j < length ids \<Longrightarrow> \<not> (j \<noteq> 0 \<and> l \<noteq> ge (ids ! j)) \<Longrightarrow>
   bucket_loop ge ids i j l out = bucket_loop ge ids i (j + 1) (ge (ids ! j)) out"
  by (subst bucket_loop.simps) (simp only: if_True if_False)

lemma bucket_loop_concat:
  "bucket_loop ge ids i j l out = (i', j', out') \<Longrightarrow> i \<le> j \<Longrightarrow> j \<le> length ids \<Longrightarrow>
   j' = length ids \<and> i' \<le> j' \<and> concat out' @ drop i' ids = concat out @ drop i ids"
proof (induction ge ids i j l out rule: bucket_loop.induct)
  case (1 ge ids i j l out)
  show ?case
  proof (cases "j < length ids")
    case False
    with "1.prems" show ?thesis by (simp add: bucket_loop_exit)
  next
    case True
    show ?thesis
    proof (cases "j \<noteq> 0 \<and> l \<noteq> ge (ids ! j)")
      case brk: True
      from "1.prems"(1) True brk
      have "bucket_loop ge ids j (j + 1) (ge (ids ! j)) (out @ [subvector ids i j]) = (i', j', out')"
        by (simp add: bucket_loop_break)
      from "1.IH"(1)[OF True brk this] True
      have "j' = length ids \<and> i' \<le> j' \<and>
            concat out' @ drop i' ids = concat (out @ [subvector ids i j]) @ drop j ids"
        by simp
      with "1.prems"(2) show ?thesis by (simp add: subvector_append_drop)
    next
      case nobrk: False
      from "1.prems"(1) True nobrk
      have "bucket_loop ge ids i (j + 1) (ge (ids ! j)) out = (i', j', out')"
        by (simp add: bucket_loop_continue)
      from "1.IH"(2)[OF True nobrk this] True "1.prems"(2)
      show ?thesis by simp
    qed
  qed
qed

lemma bucket_loop_uniform:
  "bucket_loop ge ids i j l out = (i', j', out') \<Longrightarrow> j \<le> length ids \<Longrightarrow>
   (\<forall>v\<in>set out. v \<noteq> [] \<and> uniform ge v) \<Longrightarrow>
   i \<le> j \<and> (j \<noteq> 0 \<longrightarrow> i < j \<and> (\<forall>k. i \<le> k \<and> k < j \<longrightarrow> ge (ids ! k) = l)) \<Longrightarrow>
   (\<forall>v\<in>set out'. v \<noteq> [] \<and> uniform ge v) \<and> uniform ge (subvector ids i' j') \<and>
   (i' = j' \<longrightarrow> ids = [])"
proof (induction ge ids i j l out rule: bucket_loop.induct)
  case (1 ge ids i j l out)
  show ?case
  proof (cases "j < length ids")
    case False
    with "1.prems"(1) have eq: "i' = i" "j' = j" "out' = out" by (simp_all add: bucket_loop_exit)
    from False "1.prems"(2) have jl: "j = length ids" by simp
    have "uniform ge (subvector ids i j)"
    proof (cases "j = 0")
      case True
      then show ?thesis by (simp add: uniform_def subvector_def)
    next
      case False
      with "1.prems"(2,4) show ?thesis by (intro uniform_subvector[where l = l]) auto
    qed
    moreover have "i = j \<longrightarrow> ids = []" using "1.prems"(4) jl by auto
    ultimately show ?thesis using eq "1.prems"(3) by simp
  next
    case True
    show ?thesis
    proof (cases "j \<noteq> 0 \<and> l \<noteq> ge (ids ! j)")
      case brk: True
      from "1.prems"(1) True brk
      have run: "bucket_loop ge ids j (j + 1) (ge (ids ! j)) (out @ [subvector ids i j]) = (i', j', out')"
        by (simp add: bucket_loop_break)
      have u: "uniform ge (subvector ids i j)"
        using True "1.prems"(4) brk by (intro uniform_subvector[where l = l]) auto
      have ne: "subvector ids i j \<noteq> []"
        using brk "1.prems"(4) True subvector_Nil_iff[of j ids i] by auto
      have a: "\<forall>v\<in>set (out @ [subvector ids i j]). v \<noteq> [] \<and> uniform ge v"
        using "1.prems"(3) u ne by auto
      have b: "j \<le> j + 1 \<and> (j + 1 \<noteq> 0 \<longrightarrow> j < j + 1 \<and> (\<forall>k. j \<le> k \<and> k < j + 1 \<longrightarrow> ge (ids ! k) = ge (ids ! j)))"
        by (auto simp: le_less_Suc_eq)
      from True have c: "j + 1 \<le> length ids" by simp
      from "1.IH"(1)[OF True brk run c a b] show ?thesis .
    next
      case nobrk: False
      from "1.prems"(1) True nobrk
      have run: "bucket_loop ge ids i (j + 1) (ge (ids ! j)) out = (i', j', out')"
        by (simp add: bucket_loop_continue)
      have b: "i \<le> j + 1 \<and> (j + 1 \<noteq> 0 \<longrightarrow> i < j + 1 \<and> (\<forall>k. i \<le> k \<and> k < j + 1 \<longrightarrow> ge (ids ! k) = ge (ids ! j)))"
      proof (cases "j = 0")
        case True
        with "1.prems"(4) show ?thesis by auto
      next
        case False
        with nobrk "1.prems"(4) show ?thesis by (auto simp: less_Suc_eq)
      qed
      from True have c: "j + 1 \<le> length ids" by simp
      from "1.IH"(2)[OF True nobrk run c "1.prems"(3) b] show ?thesis .
    qed
  qed
qed


lemma breaks_between_snoc:
  "breaks_between ge (vs @ [v]) \<longleftrightarrow>
   breaks_between ge vs \<and> (vs \<noteq> [] \<longrightarrow> ge (last (last vs)) \<noteq> ge (hd v))"
  by (induction ge vs rule: breaks_between.induct) auto

lemma bucket_loop_breaks:
  "bucket_loop ge ids i j l out = (i', j', out') \<Longrightarrow> j \<le> length ids \<Longrightarrow>
   i \<le> j \<and> (j \<noteq> 0 \<longrightarrow> i < j \<and> l = ge (ids ! (j - 1))) \<Longrightarrow>
   breaks_between ge out \<and> (out \<noteq> [] \<longrightarrow> ge (last (last out)) \<noteq> ge (ids ! i)) \<Longrightarrow>
   breaks_between ge out' \<and> (out' \<noteq> [] \<longrightarrow> ge (last (last out')) \<noteq> ge (ids ! i'))"
proof (induction ge ids i j l out rule: bucket_loop.induct)
  case (1 ge ids i j l out)
  show ?case
  proof (cases "j < length ids")
    case False
    with "1.prems"(1) have "i' = i" "j' = j" "out' = out" by (simp_all add: bucket_loop_exit)
    with "1.prems"(4) show ?thesis by simp
  next
    case True
    show ?thesis
    proof (cases "j \<noteq> 0 \<and> l \<noteq> ge (ids ! j)")
      case brk: True
      from "1.prems"(1) True brk
      have run: "bucket_loop ge ids j (j + 1) (ge (ids ! j)) (out @ [subvector ids i j]) = (i', j', out')"
        by (simp add: bucket_loop_break)
      from brk "1.prems"(3) have ij: "i < j" and l: "l = ge (ids ! (j - 1))" by simp_all
      from True have jl: "j \<le> length ids" by simp
      have hd: "hd (subvector ids i j) = ids ! i" using jl ij by (rule hd_subvector)
      have last: "last (subvector ids i j) = ids ! (j - 1)" using jl ij by (rule last_subvector)
      have a: "breaks_between ge (out @ [subvector ids i j])"
        using "1.prems"(4) hd by (simp add: breaks_between_snoc)
      have b: "ge (last (last (out @ [subvector ids i j]))) \<noteq> ge (ids ! j)"
        using brk l last by simp
      have c: "j \<le> j + 1 \<and> (j + 1 \<noteq> 0 \<longrightarrow> j < j + 1 \<and> ge (ids ! j) = ge (ids ! (j + 1 - 1)))"
        by simp
      from True have d: "j + 1 \<le> length ids" by simp
      from a b have e: "breaks_between ge (out @ [subvector ids i j]) \<and>
        (out @ [subvector ids i j] \<noteq> [] \<longrightarrow>
          ge (last (last (out @ [subvector ids i j]))) \<noteq> ge (ids ! j))" by simp
      from "1.IH"(1)[OF True brk run d c e] show ?thesis .
    next
      case nobrk: False
      from "1.prems"(1) True nobrk
      have run: "bucket_loop ge ids i (j + 1) (ge (ids ! j)) out = (i', j', out')"
        by (simp add: bucket_loop_continue)
      from "1.prems"(3)
      have c: "i \<le> j + 1 \<and> (j + 1 \<noteq> 0 \<longrightarrow> i < j + 1 \<and> ge (ids ! j) = ge (ids ! (j + 1 - 1)))"
        by simp
      from True have d: "j + 1 \<le> length ids" by simp
      from "1.IH"(2)[OF True nobrk run d c "1.prems"(4)] show ?thesis .
    qed
  qed
qed

lemma distinct_remdups_adj_sorted: "sorted xs \<Longrightarrow> distinct (remdups_adj xs)"
  by (induction xs rule: remdups_adj.induct) auto

lemma remdups_adj_sort: "remdups_adj (sort xs) = sorted_list_of_set (set xs)"
proof (rule sorted_distinct_set_unique)
  show "sorted (remdups_adj (sort xs))" by simp
  show "distinct (remdups_adj (sort xs))" by (simp add: distinct_remdups_adj_sorted)
  show "sorted (sorted_list_of_set (set xs))" by simp
  show "distinct (sorted_list_of_set (set xs))" by simp
  show "set (remdups_adj (sort xs)) = set (sorted_list_of_set (set xs))" by simp
qed

lemma sort_type_ids_fst: "fst (sort_type_ids ge ids) = sorted_list_of_set (set ids)"
  by (simp add: sort_type_ids_def Let_def remdups_adj_sort split: prod.splits)

lemma sort_type_ids_concat:
  "concat (snd (sort_type_ids ge ids)) = sorted_list_of_set (set ids)"
proof -
  define s where "s = remdups_adj (sort ids)"
  obtain i j out where run: "bucket_loop ge s 0 0 (- 1) [] = (i, j, out)"
    by (cases "bucket_loop ge s 0 0 (- 1) []") auto
  have res: "snd (sort_type_ids ge ids) = (if i \<noteq> j then out @ [subvector s i j] else out)"
    using run by (simp add: sort_type_ids_def s_def Let_def)
  from bucket_loop_concat[OF run] have j: "j = length s"
    and cc: "concat out @ drop i s = s" by simp_all
  have sv: "subvector s i j = drop i s" using j by (simp add: subvector_def)
  have "concat (snd (sort_type_ids ge ids)) = s"
  proof (cases "i = j")
    case True
    with j res show ?thesis using cc by simp
  next
    case False
    with res cc sv show ?thesis by simp
  qed
  then show ?thesis by (simp add: s_def remdups_adj_sort)
qed

text \<open>
  The bucketing by itself: for every vector of type ids, the vectors that
  \<^verbatim>\<open>sort_type_ids\<close> produces concatenate to the sorted ids without duplicates; each
  vector is non-empty and its ids share one equipment id; and from the last id of a vector
  to the first id of the next the equipment id changes, so the vectors are the maximal
  runs.
\<close>

theorem sort_type_ids_grouping:
  "concat (snd (sort_type_ids ge ids)) = sorted_list_of_set (set ids) \<and>
   (\<forall>v\<in>set (snd (sort_type_ids ge ids)). v \<noteq> [] \<and> uniform ge v) \<and>
   breaks_between ge (snd (sort_type_ids ge ids))"
proof -
  define s where "s = remdups_adj (sort ids)"
  obtain i j out where run: "bucket_loop ge s 0 0 (- 1) [] = (i, j, out)"
    by (cases "bucket_loop ge s 0 0 (- 1) []") auto
  have res: "snd (sort_type_ids ge ids) = (if i \<noteq> j then out @ [subvector s i j] else out)"
    using run by (simp add: sort_type_ids_def s_def Let_def)
  from bucket_loop_concat[OF run] have j: "j = length s" and ij: "i \<le> j"
    by simp_all
  from bucket_loop_uniform[OF run]
  have u: "\<forall>v\<in>set out. v \<noteq> [] \<and> uniform ge v" and ul: "uniform ge (subvector s i j)"
    and emp: "i = j \<longrightarrow> s = []" by simp_all
  from bucket_loop_breaks[OF run]
  have br: "breaks_between ge out" and bl: "out \<noteq> [] \<longrightarrow> ge (last (last out)) \<noteq> ge (s ! i)"
    by simp_all
  have 1: "concat (snd (sort_type_ids ge ids)) = sorted_list_of_set (set ids)"
    by (rule sort_type_ids_concat)
  have ne: "i \<noteq> j \<Longrightarrow> subvector s i j \<noteq> []"
    using ij j by (simp add: subvector_Nil_iff)
  have 2: "\<forall>v\<in>set (snd (sort_type_ids ge ids)). v \<noteq> [] \<and> uniform ge v"
    using res u ul ne by auto
  have 3: "breaks_between ge (snd (sort_type_ids ge ids))"
  proof (cases "i = j")
    case True
    with res br show ?thesis by simp
  next
    case False
    with ij j have "hd (subvector s i j) = s ! i" by (intro hd_subvector) simp_all
    with False res br bl show ?thesis by (simp add: breaks_between_snoc)
  qed
  from 1 2 3 show ?thesis by blast
qed

text \<open>An instance: two ids of equipment 11, one of them twice, and one id of equipment 4.\<close>

theorem sort_type_ids_grouping_witness:
  "snd (sort_type_ids (get_equip_id example_env) [0xB0E2, 0x412F, 0xB0C0, 0xB0C0]) =
     [ [0x412F], [0xB0C0, 0xB0E2] ] \<and>
   concat [ [0x412F], [0xB0C0, 0xB0E2] ] = sorted_list_of_set (set [0xB0E2, 0x412F, 0xB0C0, 0xB0C0 :: int]) \<and>
   uniform (get_equip_id example_env) [0xB0C0, 0xB0E2] \<and>
   breaks_between (get_equip_id example_env) [ [0x412F], [0xB0C0, 0xB0E2] ]"
proof -
  have ev: "snd (sort_type_ids (get_equip_id example_env) [0xB0E2, 0x412F, 0xB0C0, 0xB0C0]) =
     [ [0x412F], [0xB0C0, 0xB0E2] ]"
    by code_simp
  from sort_type_ids_grouping[of "get_equip_id example_env" "[0xB0E2, 0x412F, 0xB0C0, 0xB0C0]"]
  show ?thesis unfolding ev by simp
qed

subsection \<open>Sending commands\<close>

lemma send_log_config_encodes:
  "encodes e (opn, ids) \<Longrightarrow> has_write obj \<Longrightarrow>
   send_log_config e opn ids obj =
     (Inr True, obj\<lparr>written := written obj @ [frame_of e (opn, ids)]\<rparr>)"
  by (auto simp: encodes_def frame_of_def send_log_config_def send_msg_def Let_def)

lemma send_log_config_fails:
  "\<not> encodes e (opn, ids) \<Longrightarrow> send_log_config e opn ids obj = (Inl RuntimeError, obj)"
  by (auto simp: encodes_def send_log_config_def Let_def split: option.splits)

lemma send_log_config_no_write:
  "encodes e (opn, ids) \<Longrightarrow> \<not> has_write obj \<Longrightarrow>
   send_log_config e opn ids obj = (Inl NullDereference, obj)"
  by (auto simp: encodes_def send_log_config_def send_msg_def Let_def)

lemma send_set_masks_commands:
  "send_set_masks e vs obj = send_commands e (map (Pair SET_MASK) vs) obj"
  by (induction vs arbitrary: obj) (auto split: prod.splits sum.splits)

lemma generate_log_config_msgs_commands:
  "resolve_names e type_names [] = Inr type_ids \<Longrightarrow>
   generate_log_config_msgs e obj type_names = send_commands e (enable_commands e type_ids) obj"
  by (simp add: generate_log_config_msgs_def enable_commands_def Let_def
      send_set_masks_commands split: prod.splits sum.splits)

lemma generate_log_config_msgs_unresolved:
  "resolve_names e type_names [] = Inl err \<Longrightarrow>
   generate_log_config_msgs e obj type_names = (Inl err, obj)"
  by (simp add: generate_log_config_msgs_def)

lemma send_commands_all:
  "has_write obj \<Longrightarrow> \<forall>c\<in>set cs. encodes e c \<Longrightarrow>
   send_commands e cs obj = (Inr True, obj\<lparr>written := written obj @ map (frame_of e) cs\<rparr>)"
proof (induction cs arbitrary: obj)
  case Nil
  then show ?case by simp
next
  case (Cons c cs)
  obtain opn ids where c: "c = (opn, ids)" by (cases c)
  from Cons.prems c have "send_log_config e opn ids obj =
      (Inr True, obj\<lparr>written := written obj @ [frame_of e c]\<rparr>)"
    by (simp add: send_log_config_encodes)
  moreover have "send_commands e cs (obj\<lparr>written := written obj @ [frame_of e c]\<rparr>) =
      (Inr True, obj\<lparr>written := written obj @ [frame_of e c] @ map (frame_of e) cs\<rparr>)"
    using Cons.IH[of "obj\<lparr>written := written obj @ [frame_of e c]\<rparr>"] Cons.prems by simp
  ultimately show ?case using c by simp
qed

lemma send_commands_stop:
  "has_write obj \<Longrightarrow> k < length cs \<Longrightarrow> \<not> encodes e (cs ! k) \<Longrightarrow>
   \<forall>j<k. encodes e (cs ! j) \<Longrightarrow>
   send_commands e cs obj =
     (Inl RuntimeError, obj\<lparr>written := written obj @ map (frame_of e) (take k cs)\<rparr>)"
proof (induction cs arbitrary: obj k)
  case Nil
  then show ?case by simp
next
  case (Cons c cs)
  obtain opn ids where c: "c = (opn, ids)" by (cases c)
  show ?case
  proof (cases k)
    case 0
    with Cons.prems c show ?thesis by (simp add: send_log_config_fails)
  next
    case (Suc k')
    with Cons.prems have enc: "encodes e c" by auto
    with Cons.prems c have step: "send_log_config e opn ids obj =
        (Inr True, obj\<lparr>written := written obj @ [frame_of e c]\<rparr>)"
      by (simp add: send_log_config_encodes)
    from Cons.prems Suc have "k' < length cs" "\<not> encodes e (cs ! k')" "\<forall>j<k'. encodes e (cs ! j)"
      by auto
    with Cons.IH[of "obj\<lparr>written := written obj @ [frame_of e c]\<rparr>" k'] Cons.prems(1)
    have "send_commands e cs (obj\<lparr>written := written obj @ [frame_of e c]\<rparr>) =
        (Inl RuntimeError,
         obj\<lparr>written := written obj @ [frame_of e c] @ map (frame_of e) (take k' cs)\<rparr>)"
      by simp
    with step c Suc show ?thesis by simp
  qed
qed

lemma send_commands_success:
  "send_commands e cs obj = (Inr b, obj') \<Longrightarrow>
   obj' = obj\<lparr>written := written obj @ map (frame_of e) cs\<rparr> \<and> (\<forall>c\<in>set cs. encodes e c)"
proof (induction cs arbitrary: obj)
  case Nil
  then show ?case by simp
next
  case (Cons c cs)
  obtain opn ids where c: "c = (opn, ids)" by (cases c)
  show ?case
  proof (cases "encodes e c")
    case False
    with Cons.prems c show ?thesis by (simp add: send_log_config_fails)
  next
    case enc: True
    show ?thesis
    proof (cases "has_write obj")
      case False
      with Cons.prems c enc show ?thesis by (simp add: send_log_config_no_write)
    next
      case True
      with c enc have step: "send_log_config e opn ids obj =
          (Inr True, obj\<lparr>written := written obj @ [frame_of e c]\<rparr>)"
        by (simp add: send_log_config_encodes)
      with Cons.prems c
      have "send_commands e cs (obj\<lparr>written := written obj @ [frame_of e c]\<rparr>) = (Inr b, obj')"
        by simp
      from Cons.IH[OF this] enc show ?thesis by simp
    qed
  qed
qed

lemma find_ids_unknown:
  "\<forall>entry\<in>set tbl. name entry \<noteq> nm \<Longrightarrow> fst (find_ids tbl nm ids) = 0"
  by (simp add: find_ids_def Let_def filter_empty_conv)

lemma resolve_names_unknown:
  "PyString nm \<in> set type_names \<Longrightarrow>
   \<forall>entry\<in>set (LogPacketTypeID_To_Name e). name entry \<noteq> nm \<Longrightarrow>
   resolve_names e type_names ids = Inl ValueError"
proof (induction e type_names ids rule: resolve_names.induct)
  case (1 e type_ids)
  then show ?case by simp
next
  case (2 e nm' items type_ids)
  then show ?case
    using find_ids_unknown[of "LogPacketTypeID_To_Name e" nm type_ids]
    by (auto split: prod.splits)
next
  case (3 e items type_ids)
  then show ?case by simp
qed

lemma resolve_names_filter:
  "resolve_names e (filter is_string type_names) ids = resolve_names e type_names ids"
  by (induction e type_names ids rule: resolve_names.induct) (auto split: prod.splits)
subsection \<open>The debug message id\<close>

lemma sort_type_ids_single: "snd (sort_type_ids ge [d]) = [ [d] ]"
proof -
  have "bucket_loop ge [d] 0 0 (- 1) [] = bucket_loop ge [d] 0 (0 + 1) (ge ([d] ! 0)) []"
    by (rule bucket_loop_continue) simp_all
  also have "\<dots> = (0, 1, [])" by (simp add: bucket_loop_exit)
  finally show ?thesis by (simp add: sort_type_ids_def subvector_def Let_def)
qed

lemma find_debug_ind_absent: "d \<notin> set ids \<Longrightarrow> find_debug_ind d ids = length ids"
  by (induction ids) auto

lemma find_debug_ind_present: "d \<in> set ids \<Longrightarrow> find_debug_ind d ids < length ids"
  by (induction ids) auto

lemma erase_first_occurrence:
  "d \<in> set ids \<Longrightarrow> erase ids (find_debug_ind d ids) = remove1 d ids"
  by (induction ids) (auto simp: erase_def)

lemma remove1_single_occurrence: "count_list ids d = 1 \<Longrightarrow> d \<notin> set (remove1 d ids)"
  by (induction ids) (auto simp: count_list_0_iff split: if_splits)

text \<open>
  When the resolved ids hold the debug id once, it is removed: the two debug commands
  carry the other ids, and no \<^verbatim>\<open>SET_MASK\<close> vector holds the debug id.
\<close>

lemma debug_id_resolved_once:
  assumes "count_list type_ids (Modem_debug_message e) = 1"
  shows "enable_commands e type_ids =
           [(DEBUG_LTE_ML1, remove1 (Modem_debug_message e) type_ids),
            (DEBUG_WCDMA_L1, remove1 (Modem_debug_message e) type_ids)] @
           map (Pair SET_MASK)
             (snd (sort_type_ids (get_equip_id e) (remove1 (Modem_debug_message e) type_ids)))"
    and "Modem_debug_message e \<notin> set (remove1 (Modem_debug_message e) type_ids)"
    and "\<forall>v\<in>set (snd (sort_type_ids (get_equip_id e) (remove1 (Modem_debug_message e) type_ids))).
           Modem_debug_message e \<notin> set v"
proof -
  let ?d = "Modem_debug_message e"
  from assms have mem: "?d \<in> set type_ids"
    using count_list_0_iff[of type_ids ?d] by auto
  then show "enable_commands e type_ids =
           [(DEBUG_LTE_ML1, remove1 ?d type_ids), (DEBUG_WCDMA_L1, remove1 ?d type_ids)] @
           map (Pair SET_MASK) (snd (sort_type_ids (get_equip_id e) (remove1 ?d type_ids)))"
    using find_debug_ind_present[OF mem]
    by (simp add: enable_commands_def Let_def erase_first_occurrence)
  from assms show out: "?d \<notin> set (remove1 ?d type_ids)" by (rule remove1_single_occurrence)
  have "set (concat (snd (sort_type_ids (get_equip_id e) (remove1 ?d type_ids)))) =
      set (remove1 ?d type_ids)"
    using sort_type_ids_concat[of "get_equip_id e" "remove1 ?d type_ids"] by simp
  with out show "\<forall>v\<in>set (snd (sort_type_ids (get_equip_id e) (remove1 ?d type_ids))).
      ?d \<notin> set v"
    by auto
qed

lemma enable_commands_remove1:
  "enable_commands e type_ids =
     (if Modem_debug_message e \<in> set type_ids
      then [(DEBUG_LTE_ML1, remove1 (Modem_debug_message e) type_ids),
            (DEBUG_WCDMA_L1, remove1 (Modem_debug_message e) type_ids)]
      else []) @
     map (Pair SET_MASK)
       (snd (sort_type_ids (get_equip_id e) (remove1 (Modem_debug_message e) type_ids)))"
proof (cases "Modem_debug_message e \<in> set type_ids")
  case True
  with find_debug_ind_present[OF True] show ?thesis
    by (simp add: enable_commands_def Let_def erase_first_occurrence)
next
  case False
  with find_debug_ind_absent[OF False] show ?thesis
    by (simp add: enable_commands_def Let_def remove1_idem)
qed

lemma count_list_remove1_same: "count_list (remove1 d ids) d = count_list ids d - 1"
  by (induction ids) auto

lemma set_remove1_debug:
  "set (remove1 d ids) = set ids - {d} \<longleftrightarrow> count_list ids d \<le> 1"
proof -
  have "set (remove1 d ids) = set ids - {d} \<longleftrightarrow> d \<notin> set (remove1 d ids)"
    using set_remove1_subset[of d ids] in_set_remove1[of _ d ids] by blast
  also have "\<dots> \<longleftrightarrow> count_list (remove1 d ids) d = 0"
    by (simp only: count_list_0_iff)
  also have "\<dots> \<longleftrightarrow> count_list ids d - 1 = 0"
    by (simp only: count_list_remove1_same)
  also have "\<dots> \<longleftrightarrow> count_list ids d \<le> 1"
    by arith
  finally show ?thesis .
qed

text \<open>
  Claim C1. The claim is that the ids of the \<^verbatim>\<open>SET_MASK\<close> commands of the enable path,
  taken together, are the resolved ids without duplicates and without the debug id, cut
  into maximal runs of one equipment id. In \<^verbatim>\<open>generate_log_config_msgs\<close>, when the names
  resolve, the object can be written to and all commands encode, the frames written are
  those of the two debug commands (when the debug id is among the ids) followed by one
  \<^verbatim>\<open>SET_MASK\<close> command for each vector that \<^verbatim>\<open>sort_type_ids\<close> makes of the ids with the
  first occurrence of the debug id removed. These vectors concatenate to the sorted ids
  of that vector without duplicates, each is non-empty with one equipment id, and the
  equipment id changes at each boundary. The ids of that vector are the resolved ids
  without the debug id only when the debug id occurs at most once: when it is resolved
  twice, a \<^verbatim>\<open>SET_MASK\<close> command carries it. This is the defect of claim C2.
\<close>

theorem enable_path_set_masks:
  assumes "resolve_names e type_names [] = Inr type_ids"
    and "has_write obj"
    and "\<forall>c\<in>set ((if Modem_debug_message e \<in> set type_ids
             then [(DEBUG_LTE_ML1, remove1 (Modem_debug_message e) type_ids),
                   (DEBUG_WCDMA_L1, remove1 (Modem_debug_message e) type_ids)]
             else []) @
            map (Pair SET_MASK)
              (snd (sort_type_ids (get_equip_id e) (remove1 (Modem_debug_message e) type_ids)))).
          encodes e c"
  shows "generate_log_config_msgs e obj type_names =
      (Inr True, obj\<lparr>written := written obj @ map (frame_of e)
         ((if Modem_debug_message e \<in> set type_ids
           then [(DEBUG_LTE_ML1, remove1 (Modem_debug_message e) type_ids),
                 (DEBUG_WCDMA_L1, remove1 (Modem_debug_message e) type_ids)]
           else []) @
          map (Pair SET_MASK)
            (snd (sort_type_ids (get_equip_id e)
               (remove1 (Modem_debug_message e) type_ids))))\<rparr>) \<and>
    concat (snd (sort_type_ids (get_equip_id e) (remove1 (Modem_debug_message e) type_ids))) =
      sorted_list_of_set (set (remove1 (Modem_debug_message e) type_ids)) \<and>
    (\<forall>v\<in>set (snd (sort_type_ids (get_equip_id e) (remove1 (Modem_debug_message e) type_ids))).
       v \<noteq> [] \<and> uniform (get_equip_id e) v) \<and>
    breaks_between (get_equip_id e)
      (snd (sort_type_ids (get_equip_id e) (remove1 (Modem_debug_message e) type_ids))) \<and>
    (set (remove1 (Modem_debug_message e) type_ids) = set type_ids - {Modem_debug_message e}
       \<longleftrightarrow> count_list type_ids (Modem_debug_message e) \<le> 1)"
proof -
  have "generate_log_config_msgs e obj type_names =
      send_commands e (enable_commands e type_ids) obj"
    using assms(1) by (rule generate_log_config_msgs_commands)
  also have "\<dots> = (Inr True,
      obj\<lparr>written := written obj @ map (frame_of e) (enable_commands e type_ids)\<rparr>)"
    using assms(2,3) by (intro send_commands_all) (simp_all only: enable_commands_remove1)
  finally have 1: "generate_log_config_msgs e obj type_names =
      (Inr True, obj\<lparr>written := written obj @ map (frame_of e) (enable_commands e type_ids)\<rparr>)" .
  from 1 sort_type_ids_grouping[of "get_equip_id e" "remove1 (Modem_debug_message e) type_ids"]
    set_remove1_debug[of "Modem_debug_message e" type_ids]
  show ?thesis by (simp only: enable_commands_remove1) simp
qed

text \<open>
  The same name given twice: the ids without the debug id are none, and the enable path
  writes a \<^verbatim>\<open>SET_MASK\<close> command with the debug id.
\<close>

theorem enable_path_set_masks_witness:
  "resolve_names example_env
     [PyString ''Modem_debug_message'', PyString ''Modem_debug_message''] [] =
     Inr [0x1FEB, 0x1FEB] \<and>
   Modem_debug_message example_env = 0x1FEB \<and>
   has_write example_port \<and>
   encodes example_env (DEBUG_LTE_ML1, [0x1FEB]) \<and>
   encodes example_env (DEBUG_WCDMA_L1, [0x1FEB]) \<and>
   encodes example_env (SET_MASK, [0x1FEB]) \<and>
   remove1 (0x1FEB :: int) [0x1FEB, 0x1FEB] = [0x1FEB] \<and>
   snd (sort_type_ids (get_equip_id example_env) [0x1FEB]) = [ [0x1FEB] ] \<and>
   generate_log_config_msgs example_env example_port
     [PyString ''Modem_debug_message'', PyString ''Modem_debug_message''] =
     (Inr True, example_port\<lparr>written := written example_port @ map (frame_of example_env)
        [(DEBUG_LTE_ML1, [0x1FEB]), (DEBUG_WCDMA_L1, [0x1FEB]), (SET_MASK, [0x1FEB])]\<rparr>) \<and>
   concat [ [0x1FEB :: int] ] = sorted_list_of_set (set [0x1FEB]) \<and>
   set [0x1FEB, 0x1FEB] - {0x1FEB :: int} = {} \<and>
   count_list [0x1FEB, 0x1FEB] (0x1FEB :: int) = 2"
proof -
  let ?names = "[PyString ''Modem_debug_message'', PyString ''Modem_debug_message'']"
  have 1: "resolve_names example_env ?names [] = Inr [0x1FEB, 0x1FEB]" by code_simp
  have 2: "has_write example_port" by code_simp
  have d: "Modem_debug_message example_env = 0x1FEB" by code_simp
  have r: "remove1 (0x1FEB :: int) [0x1FEB, 0x1FEB] = [0x1FEB]" by simp
  have s: "snd (sort_type_ids (get_equip_id example_env) [0x1FEB]) = [ [0x1FEB] ]"
    by (rule sort_type_ids_single)
  have 4: "encodes example_env (DEBUG_LTE_ML1, [0x1FEB])"
    "encodes example_env (DEBUG_WCDMA_L1, [0x1FEB])"
    "encodes example_env (SET_MASK, [0x1FEB])" by code_simp+
  have 3: "\<forall>c\<in>set ((if Modem_debug_message example_env \<in> set [0x1FEB, 0x1FEB]
             then [(DEBUG_LTE_ML1, remove1 (Modem_debug_message example_env) [0x1FEB, 0x1FEB]),
                   (DEBUG_WCDMA_L1, remove1 (Modem_debug_message example_env) [0x1FEB, 0x1FEB])]
             else []) @
            map (Pair SET_MASK)
              (snd (sort_type_ids (get_equip_id example_env)
                 (remove1 (Modem_debug_message example_env) [0x1FEB, 0x1FEB])))).
          encodes example_env c"
    using 4 by (simp add: d s)
  from enable_path_set_masks[OF 1 2 3]
  have "generate_log_config_msgs example_env example_port ?names =
     (Inr True, example_port\<lparr>written := written example_port @ map (frame_of example_env)
        [(DEBUG_LTE_ML1, [0x1FEB]), (DEBUG_WCDMA_L1, [0x1FEB]), (SET_MASK, [0x1FEB])]\<rparr>)"
    and "concat [ [0x1FEB :: int] ] = sorted_list_of_set (set [0x1FEB])"
    by (simp_all add: d s)
  with 1 2 d r s 4 show ?thesis by simp
qed

text \<open>
  Claim C2. The claim is that the debug message id appears in no \<^verbatim>\<open>SET_MASK\<close> command and
  that the debug commands carry the ids with the debug id removed. The code erases only
  the first occurrence of the id, before duplicates are dropped: when the names resolve to
  the debug id twice, the two debug commands and one \<^verbatim>\<open>SET_MASK\<close> command are written, all
  three carrying the debug id.
\<close>

theorem debug_id_resolved_twice:
  assumes "resolve_names e type_names [] = Inr [Modem_debug_message e, Modem_debug_message e]"
    and "has_write obj"
    and "encodes e (DEBUG_LTE_ML1, [Modem_debug_message e])"
    and "encodes e (DEBUG_WCDMA_L1, [Modem_debug_message e])"
    and "encodes e (SET_MASK, [Modem_debug_message e])"
  shows "generate_log_config_msgs e obj type_names =
     (Inr True, obj\<lparr>written := written obj @
        [frame_of e (DEBUG_LTE_ML1, [Modem_debug_message e]),
         frame_of e (DEBUG_WCDMA_L1, [Modem_debug_message e]),
         frame_of e (SET_MASK, [Modem_debug_message e])]\<rparr>)"
proof -
  let ?d = "Modem_debug_message e"
  have cmds: "enable_commands e [?d, ?d] =
      [(DEBUG_LTE_ML1, [?d]), (DEBUG_WCDMA_L1, [?d]), (SET_MASK, [?d])]"
    by (simp add: enable_commands_def erase_def sort_type_ids_single Let_def)
  have "generate_log_config_msgs e obj type_names = send_commands e (enable_commands e [?d, ?d]) obj"
    using assms(1) by (rule generate_log_config_msgs_commands)
  also have "\<dots> = (Inr True, obj\<lparr>written := written obj @
      map (frame_of e) (enable_commands e [?d, ?d])\<rparr>)"
    using assms(2-5) by (intro send_commands_all) (simp_all add: cmds)
  finally show ?thesis by (simp add: cmds)
qed

text \<open>The same name given twice resolves so; the third frame is the \<^verbatim>\<open>SET_MASK\<close> command.\<close>

theorem debug_id_resolved_twice_witness:
  "resolve_names example_env
     [PyString ''Modem_debug_message'', PyString ''Modem_debug_message''] [] =
     Inr [Modem_debug_message example_env, Modem_debug_message example_env] \<and>
   has_write example_port \<and>
   encodes example_env (DEBUG_LTE_ML1, [Modem_debug_message example_env]) \<and>
   encodes example_env (DEBUG_WCDMA_L1, [Modem_debug_message example_env]) \<and>
   encodes example_env (SET_MASK, [Modem_debug_message example_env]) \<and>
   generate_log_config_msgs example_env example_port
     [PyString ''Modem_debug_message'', PyString ''Modem_debug_message''] =
     (Inr True, example_port\<lparr>written := written example_port @
        [frame_of example_env (DEBUG_LTE_ML1, [Modem_debug_message example_env]),
         frame_of example_env (DEBUG_WCDMA_L1, [Modem_debug_message example_env]),
         frame_of example_env (SET_MASK, [Modem_debug_message example_env])]\<rparr>) \<and>
   frame_of example_env (SET_MASK, [Modem_debug_message example_env]) = [3, 0xEB, 0x7e]"
proof -
  have 1: "resolve_names example_env
     [PyString ''Modem_debug_message'', PyString ''Modem_debug_message''] [] =
     Inr [Modem_debug_message example_env, Modem_debug_message example_env]"
    by code_simp
  have 2: "has_write example_port" by code_simp
  have 3: "encodes example_env (DEBUG_LTE_ML1, [Modem_debug_message example_env])" by code_simp
  have 4: "encodes example_env (DEBUG_WCDMA_L1, [Modem_debug_message example_env])" by code_simp
  have 5: "encodes example_env (SET_MASK, [Modem_debug_message example_env])" by code_simp
  have 6: "frame_of example_env (SET_MASK, [Modem_debug_message example_env]) = [3, 0xEB, 0x7e]"
    by code_simp
  from debug_id_resolved_twice[OF 1 2 3 4 5] 1 2 3 4 5 6 show ?thesis by blast
qed

subsection \<open>Unknown type names\<close>

text \<open>
  Against claim C3 as stated: in the configuration export a name that resolves to nothing
  is met only after the forced \<^verbatim>\<open>DISABLE\<close> command has been written.
\<close>

theorem unknown_name_diag_cfg_counterexample:
  "dm_collector_c_generate_diag_cfg example_env example_file
     (PySequence [PyString ''LTE_RRC_OTA_Packet'', PyString ''NotARealTypeName'']) =
     (Inl ValueError, example_file\<lparr>written := [ [0, 0x7e] ]\<rparr>) \<and>
   written example_file = []"
  by code_simp

text \<open>
  Claim C3, amended. When a string of the sequence is a name the table does not list,
  \<^verbatim>\<open>enable_logs\<close> (on an object that passes its check) raises \<^verbatim>\<open>ValueError\<close> and leaves
  the object as it was; \<^verbatim>\<open>generate_diag_cfg\<close> (on an object that passes its check, the
  \<^verbatim>\<open>DISABLE\<close> command encoding) raises \<^verbatim>\<open>ValueError\<close> after writing the frame of the
  \<^verbatim>\<open>DISABLE\<close> command and nothing else.
\<close>

theorem unknown_name_aborts:
  assumes "PyString nm \<in> set type_names"
    and "\<forall>entry\<in>set (LogPacketTypeID_To_Name e). name entry \<noteq> nm"
  shows "(check_serial_port port \<longrightarrow>
            dm_collector_c_enable_logs e port (PySequence type_names) = (Inl ValueError, port)) \<and>
         (check_file file \<longrightarrow> encodes e (DISABLE, []) \<longrightarrow>
            dm_collector_c_generate_diag_cfg e file (PySequence type_names) =
              (Inl ValueError, file\<lparr>written := written file @ [frame_of e (DISABLE, [])]\<rparr>))"
proof -
  from assms have "resolve_names e type_names [] = Inl ValueError"
    by (rule resolve_names_unknown)
  then have gen: "\<And>obj. generate_log_config_msgs e obj type_names = (Inl ValueError, obj)"
    by (rule generate_log_config_msgs_unresolved)
  have a: "check_serial_port port \<longrightarrow>
            dm_collector_c_enable_logs e port (PySequence type_names) = (Inl ValueError, port)"
    by (simp add: dm_collector_c_enable_logs_def gen)
  have b: "check_file file \<longrightarrow> encodes e (DISABLE, []) \<longrightarrow>
            dm_collector_c_generate_diag_cfg e file (PySequence type_names) =
              (Inl ValueError, file\<lparr>written := written file @ [frame_of e (DISABLE, [])]\<rparr>)"
    by (simp add: dm_collector_c_generate_diag_cfg_def check_file_def gen send_log_config_encodes)
  from a b show ?thesis by blast
qed

text \<open>An instance with one known and one unknown name.\<close>

theorem unknown_name_aborts_witness:
  "PyString ''NotARealTypeName'' \<in> set [PyString ''LTE_RRC_OTA_Packet'', PyString ''NotARealTypeName''] \<and>
   filter (\<lambda>entry. name entry = ''NotARealTypeName'') (LogPacketTypeID_To_Name example_env) = [] \<and>
   check_serial_port example_port \<and> check_file example_file \<and> encodes example_env (DISABLE, []) \<and>
   dm_collector_c_enable_logs example_env example_port
     (PySequence [PyString ''LTE_RRC_OTA_Packet'', PyString ''NotARealTypeName'']) =
     (Inl ValueError, example_port) \<and>
   dm_collector_c_generate_diag_cfg example_env example_file
     (PySequence [PyString ''LTE_RRC_OTA_Packet'', PyString ''NotARealTypeName'']) =
     (Inl ValueError,
      example_file\<lparr>written := written example_file @ [frame_of example_env (DISABLE, [])]\<rparr>)"
proof -
  have 1: "PyString ''NotARealTypeName'' \<in>
      set [PyString ''LTE_RRC_OTA_Packet'', PyString ''NotARealTypeName'']" by simp
  have 2: "\<forall>entry\<in>set (LogPacketTypeID_To_Name example_env). name entry \<noteq> ''NotARealTypeName''"
    by (simp add: example_env_def example_table_def)
  have 3: "check_serial_port example_port" "check_file example_file"
    "encodes example_env (DISABLE, [])"
    by code_simp+
  have 4: "filter (\<lambda>entry. name entry = ''NotARealTypeName'')
      (LogPacketTypeID_To_Name example_env) = []"
    by (simp add: example_env_def example_table_def)
  from unknown_name_aborts[OF 1 2, of example_port example_file] 1 3 4 show ?thesis by blast
qed
subsection \<open>The synthesized header of a debug packet\<close>

lemma debug_packet_layout:
  "length (debug_packet frame) = length frame + 14 \<and>
   take 14 (debug_packet frame) = tmp_header[2 := of_nat (length frame + 14)] \<and>
   drop 14 (debug_packet frame) = frame"
  by (simp add: debug_packet_def tmp_header_def)

lemma debug_packet_bytes:
  "debug_packet frame ! 2 = of_nat (length frame + 14)"
  "debug_packet frame ! 3 = 0"
  "debug_packet frame ! 4 = 0xeb"
  "debug_packet frame ! 5 = 0x1f"
  by (simp_all add: debug_packet_def tmp_header_def)

lemma unat_byte_of_nat: "unat (of_nat n :: byte) = n mod 256"
  by (simp add: unat_of_nat)

lemma debug_packet_log_msg_len:
  "header_log_msg_len (debug_packet frame) = (length frame + 14) mod 256"
proof -
  have "header_log_msg_len (debug_packet frame) =
      unat (debug_packet frame ! 2) + 256 * unat (debug_packet frame ! 3)"
    by (simp add: header_log_msg_len_def le16_def)
  also have "\<dots> = unat (of_nat (length frame + 14) :: byte) + 256 * unat (0 :: byte)"
    by (simp only: debug_packet_bytes)
  also have "\<dots> = (length frame + 14) mod 256"
    by (simp only: unat_byte_of_nat) simp
  finally show ?thesis .
qed

lemma debug_packet_type_id: "header_type_id (debug_packet frame) = 0x1FEB"
proof -
  have "header_type_id (debug_packet frame) =
      unat (debug_packet frame ! 4) + 256 * unat (debug_packet frame ! 5)"
    by (simp add: header_type_id_def le16_def)
  also have "\<dots> = unat (0xeb :: byte) + 256 * unat (0x1f :: byte)"
    by (simp only: debug_packet_bytes)
  also have "\<dots> = 0x1FEB" by simp
  finally show ?thesis .
qed

lemma debug_packet_small:
  "length frame + 14 < 256 \<Longrightarrow> header_log_msg_len (debug_packet frame) = length frame + 14"
  by (simp add: debug_packet_log_msg_len)

text \<open>
  Claim C4. The claim is that the length field of the synthesized header equals the length
  of the payload plus 14. The code stores only the low eight bits of that sum in byte 2
  and leaves byte 3 at zero, so the field is the sum modulo 256: for a payload of 242
  bytes the field reads 0, while the packet handed to \<^verbatim>\<open>decode_log_packet\<close> has 256 bytes.
  The header is 14 bytes, it precedes the unchanged payload, and its type id is 0x1FEB.
\<close>

theorem debug_packet_length_truncated:
  "length (replicate 242 (0x79 :: byte)) = 242 \<and>
   header_log_msg_len (debug_packet (replicate 242 0x79)) = 0 \<and>
   header_type_id (debug_packet (replicate 242 0x79)) = 0x1FEB \<and>
   dm_collector_c_receive_log_packet example_rx False False (0, [(replicate 242 0x79, True)]) =
     (Decoded (debug_packet (replicate 242 0x79), 256), (5, []))"
proof -
  have "is_debug_packet example_rx (replicate 242 0x79)"
    and "\<not> is_log_packet example_rx (replicate 242 0x79)"
    by (simp_all add: example_rx_def)
  then have "dm_collector_c_receive_log_packet example_rx False False
      (0, [(replicate 242 0x79, True)]) =
     (Decoded (debug_packet (replicate 242 0x79), 256), (5, []))"
    by (simp add: dm_collector_c_receive_log_packet_def example_rx_def)
  then show ?thesis
    by (simp add: debug_packet_log_msg_len debug_packet_type_id)
qed

subsection \<open>Frames that are dropped\<close>

text \<open>
  Claim C5. When the frame that \<^verbatim>\<open>get_next_frame\<close> hands over has a wrong checksum, or is
  neither a log packet nor a debug packet, \<^verbatim>\<open>receive_log_packet\<close> returns \<^verbatim>\<open>None\<close>, and
  the state it leaves is the one \<^verbatim>\<open>get_next_frame\<close> left: the next call goes on from
  there.
\<close>

theorem receive_log_packet_drops:
  assumes "get_next_frame rx st = ((success, frame, crc_correct), st')"
    and "\<not> crc_correct \<or> (\<not> is_log_packet rx frame \<and> \<not> is_debug_packet rx frame)"
  shows "dm_collector_c_receive_log_packet rx skip_decoding include_timestamp st = (Py_None, st')"
  using assms by (auto simp: dm_collector_c_receive_log_packet_def Let_def)

text \<open>A frame with a wrong checksum is dropped, and the next call decodes the next frame.\<close>

theorem receive_log_packet_drops_witness:
  "get_next_frame example_rx (0, [([0x10, 0, 1, 2], False), ([0x10, 0, 3], True)]) =
     ((True, [0x10, 0, 1, 2], False), (5, [([0x10, 0, 3], True)])) \<and>
   dm_collector_c_receive_log_packet example_rx False False
     (0, [([0x10, 0, 1, 2], False), ([0x10, 0, 3], True)]) =
     (Py_None, (5, [([0x10, 0, 3], True)])) \<and>
   dm_collector_c_receive_log_packet example_rx False False (5, [([0x10, 0, 3], True)]) =
     (Decoded ([3], 1), (10, []))"
proof -
  have 1: "get_next_frame example_rx (0, [([0x10, 0, 1, 2], False), ([0x10, 0, 3], True)]) =
     ((True, [0x10, 0, 1, 2], False), (5, [([0x10, 0, 3], True)]))"
    by code_simp
  have 2: "dm_collector_c_receive_log_packet example_rx False False (5, [([0x10, 0, 3], True)]) =
     (Decoded ([3], 1), (10, []))"
    by code_simp
  from receive_log_packet_drops[OF 1, of False False] 1 2 show ?thesis by simp
qed

subsection \<open>The timestamp\<close>

text \<open>
  Claim C9. With \<open>include_timestamp\<close> set, the call returns a pair exactly when a frame
  was taken, its checksum is right and it is a log packet or a debug packet; otherwise it
  returns \<^verbatim>\<open>None\<close> alone. The first component of the pair is the result of
  \<^verbatim>\<open>decode_log_packet\<close>: on the frame without its first two bytes for a log packet, on
  the frame behind the synthesized header for a debug packet. The second component is the
  time of the state in which the call started, before \<^verbatim>\<open>get_next_frame\<close> ran.
\<close>

theorem receive_log_packet_timestamp:
  assumes "get_next_frame rx st = ((success, frame, crc_correct), st')"
  shows "(success \<and> crc_correct \<and> is_log_packet rx frame \<longrightarrow>
           dm_collector_c_receive_log_packet rx skip_decoding True st =
             (Tuple (decode_log_packet rx (drop 2 frame) (of_nat (length frame) - 2) skip_decoding)
                (get_posix_timestamp rx st), st')) \<and>
         (success \<and> crc_correct \<and> \<not> is_log_packet rx frame \<and> is_debug_packet rx frame \<longrightarrow>
           dm_collector_c_receive_log_packet rx skip_decoding True st =
             (Tuple (decode_log_packet rx (debug_packet frame) (of_nat (length frame + 14))
                  skip_decoding)
                (get_posix_timestamp rx st), st')) \<and>
         (\<not> (success \<and> crc_correct \<and> (is_log_packet rx frame \<or> is_debug_packet rx frame)) \<longrightarrow>
           dm_collector_c_receive_log_packet rx skip_decoding True st = (Py_None, st'))"
  using assms by (auto simp: dm_collector_c_receive_log_packet_def Let_def)

text \<open>
  An instance: the clock stands at 1.5 s when the first call starts and has moved on when
  the frame is out; the pair carries what the decoder makes of the frame without its first
  two bytes, and 1.5. The second call takes a debug packet and returns what the decoder
  makes of the packet with the header put in front. With no frame left the call returns
  \<^verbatim>\<open>None\<close>.
\<close>

theorem receive_log_packet_timestamp_witness:
  "get_next_frame example_rx (1500000, [([0x10, 0, 1, 2], True), ([0x79, 7], True)]) =
     ((True, [0x10, 0, 1, 2], True), (1500005, [([0x79, 7], True)])) \<and>
   is_log_packet example_rx [0x10, 0, 1, 2] \<and>
   dm_collector_c_receive_log_packet example_rx False True
      (1500000, [([0x10, 0, 1, 2], True), ([0x79, 7], True)]) =
      (Tuple (decode_log_packet example_rx (drop 2 [0x10, 0, 1, 2])
                (of_nat (length [0x10, 0, 1, 2 :: byte]) - 2) False)
         (get_posix_timestamp example_rx
            (1500000, [([0x10, 0, 1, 2], True), ([0x79, 7], True)])),
       (1500005, [([0x79, 7], True)])) \<and>
   decode_log_packet example_rx (drop 2 [0x10, 0, 1, 2])
      (of_nat (length [0x10, 0, 1, 2 :: byte]) - 2) False = ([1, 2], 2) \<and>
   get_posix_timestamp example_rx (1500000, [([0x10, 0, 1, 2], True), ([0x79, 7], True)]) = 3 / 2 \<and>
   get_posix_timestamp example_rx (1500005, [([0x79, 7], True)]) \<noteq> 3 / 2 \<and>
   dm_collector_c_receive_log_packet example_rx False True (1500005, [([0x79, 7], True)]) =
     (Tuple (debug_packet [0x79, 7], 16) (300001 / 200000), (1500010, [])) \<and>
   dm_collector_c_receive_log_packet example_rx False True (1500010, []) =
     (Py_None, (1500015, []))"
proof -
  have 1: "get_next_frame example_rx (1500000, [([0x10, 0, 1, 2], True), ([0x79, 7], True)]) =
     ((True, [0x10, 0, 1, 2], True), (1500005, [([0x79, 7], True)]))"
    by code_simp
  have 2: "is_log_packet example_rx [0x10, 0, 1, 2]" by code_simp
  have 3: "get_posix_timestamp example_rx
      (1500000, [([0x10, 0, 1, 2], True), ([0x79, 7], True)]) = 3 / 2"
    by code_simp
  have 4: "get_posix_timestamp example_rx (1500005, [([0x79, 7], True)]) \<noteq> 3 / 2"
    by code_simp
  have 5: "dm_collector_c_receive_log_packet example_rx False True (1500010, []) =
      (Py_None, (1500015, []))"
    by code_simp
  have 6: "decode_log_packet example_rx (drop 2 [0x10, 0, 1, 2])
      (of_nat (length [0x10, 0, 1, 2 :: byte]) - 2) False = ([1, 2], 2)"
    by code_simp
  have 7: "get_next_frame example_rx (1500005, [([0x79, 7], True)]) =
     ((True, [0x79, 7], True), (1500010, []))"
    by code_simp
  have 8: "\<not> is_log_packet example_rx [0x79, 7]" "is_debug_packet example_rx [0x79, 7]"
    by code_simp+
  have 9: "decode_log_packet example_rx (debug_packet [0x79, 7])
      (of_nat (length [0x79, 7 :: byte] + 14)) False = (debug_packet [0x79, 7], 16)"
    by (simp add: example_rx_def)
  have 10: "get_posix_timestamp example_rx (1500005, [([0x79, 7], True)]) = 300001 / 200000"
    by code_simp
  from receive_log_packet_timestamp[OF 7, of False] 8 9 10
  have 11: "dm_collector_c_receive_log_packet example_rx False True (1500005, [([0x79, 7], True)]) =
     (Tuple (debug_packet [0x79, 7], 16) (300001 / 200000), (1500010, []))"
    by simp
  from receive_log_packet_timestamp[OF 1, of False] 1 2 3 4 5 6 11 show ?thesis by blast
qed

subsection \<open>Encoding failures\<close>

lemma enable_logs_commands:
  "check_serial_port port \<Longrightarrow> resolve_names e type_names [] = Inr type_ids \<Longrightarrow>
   dm_collector_c_enable_logs e port (PySequence type_names) =
     (case send_commands e (enable_commands e type_ids) port of
        (Inl err, obj) \<Rightarrow> (Inl err, obj)
      | (Inr _, obj) \<Rightarrow> (Inr True, obj))"
  by (simp add: dm_collector_c_enable_logs_def generate_log_config_msgs_commands)

lemma generate_diag_cfg_commands:
  "check_file file \<Longrightarrow> resolve_names e type_names [] = Inr type_ids \<Longrightarrow>
   dm_collector_c_generate_diag_cfg e file (PySequence type_names) =
     (case send_commands e ((DISABLE, []) # enable_commands e type_ids) file of
        (Inl err, obj) \<Rightarrow> (Inl err, obj)
      | (Inr _, obj) \<Rightarrow> (Inr True, obj))"
  by (simp add: dm_collector_c_generate_diag_cfg_def generate_log_config_msgs_commands
      split: prod.splits sum.splits)

text \<open>
  Against claim C6 as stated: when the \<^verbatim>\<open>DISABLE\<close> command does not encode,
  \<^verbatim>\<open>disable_logs\<close> raises nothing; it returns \<^verbatim>\<open>False\<close>.
\<close>

theorem disable_logs_encode_failure_counterexample:
  "\<not> encodes failing_env (DISABLE, []) \<and> check_serial_port example_port \<and>
   dm_collector_c_disable_logs failing_env example_port = (Inr False, example_port)"
  by code_simp

text \<open>
  Claim C6, amended. On objects that pass the checks and can be written to, with names
  that resolve: when the \<^verbatim>\<open>DISABLE\<close> command does not encode, \<^verbatim>\<open>disable_logs\<close> returns
  \<^verbatim>\<open>False\<close> and writes nothing; when the command at position \<open>k\<close> of a batch is the first
  that does not encode, \<^verbatim>\<open>enable_logs\<close> and \<^verbatim>\<open>generate_diag_cfg\<close> raise \<^verbatim>\<open>RuntimeError\<close>
  after writing the frames of the \<open>k\<close> commands before it, each once, and nothing after.
  The batch of \<^verbatim>\<open>generate_diag_cfg\<close> starts with the \<^verbatim>\<open>DISABLE\<close> command.
\<close>

theorem encode_failure_stops_batch:
  assumes "has_read port" and "has_write port" and "has_write file"
    and "resolve_names e type_names [] = Inr type_ids"
  shows "(\<not> encodes e (DISABLE, []) \<longrightarrow> dm_collector_c_disable_logs e port = (Inr False, port)) \<and>
    (\<forall>k<length (enable_commands e type_ids).
       \<not> encodes e (enable_commands e type_ids ! k) \<and>
       (\<forall>j<k. encodes e (enable_commands e type_ids ! j)) \<longrightarrow>
       dm_collector_c_enable_logs e port (PySequence type_names) =
         (Inl RuntimeError,
          port\<lparr>written := written port @
            map (frame_of e) (take k (enable_commands e type_ids))\<rparr>)) \<and>
    (\<forall>k<length ((DISABLE, []) # enable_commands e type_ids).
       \<not> encodes e (((DISABLE, []) # enable_commands e type_ids) ! k) \<and>
       (\<forall>j<k. encodes e (((DISABLE, []) # enable_commands e type_ids) ! j)) \<longrightarrow>
       dm_collector_c_generate_diag_cfg e file (PySequence type_names) =
         (Inl RuntimeError,
          file\<lparr>written := written file @
            map (frame_of e) (take k ((DISABLE, []) # enable_commands e type_ids))\<rparr>))"
proof -
  have a: "\<not> encodes e (DISABLE, []) \<longrightarrow> dm_collector_c_disable_logs e port = (Inr False, port)"
    using assms(1)
    by (auto simp: dm_collector_c_disable_logs_def check_serial_port_def encodes_def Let_def
        split: option.splits)
  have b: "dm_collector_c_enable_logs e port (PySequence type_names) =
         (Inl RuntimeError,
          port\<lparr>written := written port @
            map (frame_of e) (take k (enable_commands e type_ids))\<rparr>)"
    if "k < length (enable_commands e type_ids)"
      and "\<not> encodes e (enable_commands e type_ids ! k)"
      and "\<forall>j<k. encodes e (enable_commands e type_ids ! j)" for k
  proof -
    from assms(2) that have "send_commands e (enable_commands e type_ids) port =
        (Inl RuntimeError,
         port\<lparr>written := written port @ map (frame_of e) (take k (enable_commands e type_ids))\<rparr>)"
      by (rule send_commands_stop)
    with assms(1,4) show ?thesis by (simp add: enable_logs_commands check_serial_port_def)
  qed
  have c: "dm_collector_c_generate_diag_cfg e file (PySequence type_names) =
         (Inl RuntimeError,
          file\<lparr>written := written file @
            map (frame_of e) (take k ((DISABLE, []) # enable_commands e type_ids))\<rparr>)"
    if "k < length ((DISABLE, []) # enable_commands e type_ids)"
      and "\<not> encodes e (((DISABLE, []) # enable_commands e type_ids) ! k)"
      and "\<forall>j<k. encodes e (((DISABLE, []) # enable_commands e type_ids) ! j)" for k
  proof -
    from assms(3) that have "send_commands e ((DISABLE, []) # enable_commands e type_ids) file =
        (Inl RuntimeError,
         file\<lparr>written := written file @
           map (frame_of e) (take k ((DISABLE, []) # enable_commands e type_ids))\<rparr>)"
      by (rule send_commands_stop)
    with assms(3,4) show ?thesis by (simp add: generate_diag_cfg_commands check_file_def)
  qed
  from a b c show ?thesis by blast
qed

text \<open>An instance where the second \<^verbatim>\<open>SET_MASK\<close> command does not encode.\<close>

theorem encode_failure_stops_batch_witness:
  "has_read example_port \<and> has_write example_port \<and> has_write example_file \<and>
   resolve_names selective_env [PyString ''WCDMA_Signaling'', PyString ''LTE_RRC_OTA_Packet''] [] =
     Inr [0x412F, 0xB0C0] \<and>
   enable_commands selective_env [0x412F, 0xB0C0] = [(SET_MASK, [0x412F]), (SET_MASK, [0xB0C0])] \<and>
   encodes selective_env (DISABLE, []) \<and> encodes selective_env (SET_MASK, [0x412F]) \<and>
   \<not> encodes selective_env (SET_MASK, [0xB0C0]) \<and>
   dm_collector_c_enable_logs selective_env example_port
     (PySequence [PyString ''WCDMA_Signaling'', PyString ''LTE_RRC_OTA_Packet'']) =
     (Inl RuntimeError, example_port\<lparr>written := [frame_of selective_env (SET_MASK, [0x412F])]\<rparr>) \<and>
   dm_collector_c_generate_diag_cfg selective_env example_file
     (PySequence [PyString ''WCDMA_Signaling'', PyString ''LTE_RRC_OTA_Packet'']) =
     (Inl RuntimeError,
      example_file\<lparr>written := [frame_of selective_env (DISABLE, []),
                                 frame_of selective_env (SET_MASK, [0x412F])]\<rparr>)"
proof -
  let ?names = "[PyString ''WCDMA_Signaling'', PyString ''LTE_RRC_OTA_Packet'']"
  have 1: "has_read example_port" "has_write example_port" "has_write example_file"
    by code_simp+
  have 2: "resolve_names selective_env ?names [] = Inr [0x412F, 0xB0C0]" by code_simp
  have 3: "enable_commands selective_env [0x412F, 0xB0C0] =
      [(SET_MASK, [0x412F]), (SET_MASK, [0xB0C0])]" by code_simp
  have 4: "encodes selective_env (DISABLE, [])" "encodes selective_env (SET_MASK, [0x412F])"
    "\<not> encodes selective_env (SET_MASK, [0xB0C0])" by code_simp+
  have 5: "written example_port = []" "written example_file = []" by code_simp+
  note inst = encode_failure_stops_batch[OF 1 2, unfolded 3]
  from inst have "dm_collector_c_enable_logs selective_env example_port (PySequence ?names) =
     (Inl RuntimeError, example_port\<lparr>written := written example_port @
        map (frame_of selective_env) (take 1 [(SET_MASK, [0x412F]), (SET_MASK, [0xB0C0])])\<rparr>)"
    using 4 by (auto simp: less_Suc_eq)
  moreover from inst have "dm_collector_c_generate_diag_cfg selective_env example_file
       (PySequence ?names) =
     (Inl RuntimeError, example_file\<lparr>written := written example_file @
        map (frame_of selective_env)
          (take 2 [(DISABLE, []), (SET_MASK, [0x412F]), (SET_MASK, [0xB0C0])])\<rparr>)"
    using 4 by (auto simp: less_Suc_eq)
  ultimately show ?thesis using 1 2 3 4 5 by simp
qed
subsection \<open>The configuration export, the argument checks and non-strings\<close>

text \<open>
  Claim C7. When \<^verbatim>\<open>generate_diag_cfg\<close> succeeds, what it has written starts with the
  frame of the \<^verbatim>\<open>DISABLE\<close> command with no ids, followed by the frames of the enable
  commands for the ids the names resolve to.
\<close>

theorem generate_diag_cfg_disable_first:
  assumes "dm_collector_c_generate_diag_cfg e file sequence = (Inr b, file')"
  shows "\<exists>type_names type_ids.
           sequence = PySequence type_names \<and>
           resolve_names e type_names [] = Inr type_ids \<and>
           encodes e (DISABLE, []) \<and>
           written file' = written file @
             frame_of e (DISABLE, []) # map (frame_of e) (enable_commands e type_ids)"
proof -
  from assms have chk: "check_file file"
    by (auto simp: dm_collector_c_generate_diag_cfg_def split: if_splits)
  from assms chk obtain type_names where seq: "sequence = PySequence type_names"
    by (cases sequence) (auto simp: dm_collector_c_generate_diag_cfg_def)
  have "\<exists>type_ids. resolve_names e type_names [] = Inr type_ids"
  proof (cases "resolve_names e type_names []")
    case (Inl err)
    then have "\<And>obj. generate_log_config_msgs e obj type_names = (Inl err, obj)"
      by (rule generate_log_config_msgs_unresolved)
    with assms chk seq show ?thesis
      by (auto simp: dm_collector_c_generate_diag_cfg_def split: prod.splits sum.splits)
  next
    case (Inr type_ids)
    then show ?thesis by blast
  qed
  then obtain type_ids where res: "resolve_names e type_names [] = Inr type_ids" by blast
  from assms seq generate_diag_cfg_commands[OF chk res]
  obtain b' where "send_commands e ((DISABLE, []) # enable_commands e type_ids) file = (Inr b', file')"
    by (auto split: prod.splits sum.splits)
  from send_commands_success[OF this]
  have "written file' = written file @
      frame_of e (DISABLE, []) # map (frame_of e) (enable_commands e type_ids)"
    and "encodes e (DISABLE, [])" by simp_all
  with seq res show ?thesis by blast
qed

text \<open>An instance with two names of different equipment.\<close>

theorem generate_diag_cfg_disable_first_witness:
  "dm_collector_c_generate_diag_cfg example_env example_file
     (PySequence [PyString ''WCDMA_Signaling'', PyString ''LTE_RRC_OTA_Packet'']) =
     (Inr True, example_file\<lparr>written := [ [0, 0x7e], [3, 0x2F, 0x7e], [3, 0xC0, 0x7e] ]\<rparr>) \<and>
   frame_of example_env (DISABLE, []) = [0, 0x7e] \<and>
   (\<exists>type_names type_ids.
      PySequence [PyString ''WCDMA_Signaling'', PyString ''LTE_RRC_OTA_Packet''] =
        PySequence type_names \<and>
      resolve_names example_env type_names [] = Inr type_ids \<and>
      encodes example_env (DISABLE, []) \<and>
      written (example_file\<lparr>written := [ [0, 0x7e], [3, 0x2F, 0x7e], [3, 0xC0, 0x7e] ]\<rparr>) =
        written example_file @
          frame_of example_env (DISABLE, []) #
          map (frame_of example_env) (enable_commands example_env type_ids))"
proof -
  have 1: "dm_collector_c_generate_diag_cfg example_env example_file
     (PySequence [PyString ''WCDMA_Signaling'', PyString ''LTE_RRC_OTA_Packet'']) =
     (Inr True, example_file\<lparr>written := [ [0, 0x7e], [3, 0x2F, 0x7e], [3, 0xC0, 0x7e] ]\<rparr>)"
    by code_simp
  have 2: "frame_of example_env (DISABLE, []) = [0, 0x7e]" by code_simp
  from generate_diag_cfg_disable_first[OF 1] 1 2 show ?thesis by blast
qed

text \<open>
  The checks as they are: \<^verbatim>\<open>disable_logs\<close> and \<^verbatim>\<open>enable_logs\<close> test the port for
  \<^verbatim>\<open>read\<close>, \<^verbatim>\<open>generate_diag_cfg\<close> tests the file for \<^verbatim>\<open>write\<close>. When the attribute
  tested is missing the call raises \<^verbatim>\<open>TypeError\<close> and the object is left as it was.
\<close>

theorem missing_capability_rejected:
  "(\<not> has_read port \<longrightarrow>
      dm_collector_c_disable_logs e port = (Inl TypeError, port) \<and>
      dm_collector_c_enable_logs e port sequence = (Inl TypeError, port)) \<and>
   (\<not> has_write file \<longrightarrow>
      dm_collector_c_generate_diag_cfg e file sequence = (Inl TypeError, file))"
  by (simp add: dm_collector_c_disable_logs_def dm_collector_c_enable_logs_def
      dm_collector_c_generate_diag_cfg_def check_serial_port_def check_file_def)

text \<open>A file without \<^verbatim>\<open>read\<close> given as port, and an object without \<^verbatim>\<open>write\<close> given as file.\<close>

theorem missing_capability_rejected_witness:
  "\<not> has_read example_file \<and> \<not> has_write read_only_object \<and>
   dm_collector_c_disable_logs example_env example_file = (Inl TypeError, example_file) \<and>
   dm_collector_c_enable_logs example_env example_file
     (PySequence [PyString ''LTE_RRC_OTA_Packet'']) = (Inl TypeError, example_file) \<and>
   dm_collector_c_generate_diag_cfg example_env read_only_object
     (PySequence [PyString ''LTE_RRC_OTA_Packet'']) = (Inl TypeError, read_only_object)"
proof -
  have 1: "\<not> has_read example_file" "\<not> has_write read_only_object" by code_simp+
  from missing_capability_rejected[of example_file example_env
      "PySequence [PyString ''LTE_RRC_OTA_Packet'']" read_only_object] 1
  show ?thesis by blast
qed

lemma generate_log_config_msgs_filter:
  "generate_log_config_msgs e obj (filter is_string type_names) =
   generate_log_config_msgs e obj type_names"
  by (simp add: generate_log_config_msgs_def resolve_names_filter)

lemma enable_logs_filter:
  "dm_collector_c_enable_logs e obj (PySequence (filter is_string type_names)) =
   dm_collector_c_enable_logs e obj (PySequence type_names)"
  by (simp add: dm_collector_c_enable_logs_def generate_log_config_msgs_filter)

lemma generate_diag_cfg_filter:
  "dm_collector_c_generate_diag_cfg e obj (PySequence (filter is_string type_names)) =
   dm_collector_c_generate_diag_cfg e obj (PySequence type_names)"
  by (simp add: dm_collector_c_generate_diag_cfg_def generate_log_config_msgs_filter
      cong: prod.case_cong sum.case_cong)

text \<open>
  Claim C10. Elements of \<open>type_names\<close> that are not strings are skipped: the ids resolved,
  the result and everything written are those of the sequence with these elements left
  out, in \<^verbatim>\<open>generate_log_config_msgs\<close>, \<^verbatim>\<open>enable_logs\<close> and \<^verbatim>\<open>generate_diag_cfg\<close>.
\<close>

theorem non_strings_skipped:
  "resolve_names e (filter is_string type_names) ids = resolve_names e type_names ids \<and>
   generate_log_config_msgs e obj (filter is_string type_names) =
     generate_log_config_msgs e obj type_names \<and>
   dm_collector_c_enable_logs e obj (PySequence (filter is_string type_names)) =
     dm_collector_c_enable_logs e obj (PySequence type_names) \<and>
   dm_collector_c_generate_diag_cfg e obj (PySequence (filter is_string type_names)) =
     dm_collector_c_generate_diag_cfg e obj (PySequence type_names)"
  by (simp only: resolve_names_filter generate_log_config_msgs_filter enable_logs_filter
      generate_diag_cfg_filter simp_thms)

text \<open>An instance: a name between two elements that are not strings.\<close>

theorem non_strings_skipped_witness:
  "filter is_string [PyNonString, PyString ''LTE_RRC_OTA_Packet'', PyNonString] =
     [PyString ''LTE_RRC_OTA_Packet''] \<and>
   dm_collector_c_enable_logs example_env example_port
     (PySequence [PyString ''LTE_RRC_OTA_Packet'']) =
     (Inr True, example_port\<lparr>written := [ [3, 0xC0, 0x7e] ]\<rparr>) \<and>
   dm_collector_c_enable_logs example_env example_port
     (PySequence [PyNonString, PyString ''LTE_RRC_OTA_Packet'', PyNonString]) =
     (Inr True, example_port\<lparr>written := [ [3, 0xC0, 0x7e] ]\<rparr>)"
proof -
  have 1: "filter is_string [PyNonString, PyString ''LTE_RRC_OTA_Packet'', PyNonString] =
     [PyString ''LTE_RRC_OTA_Packet'']" by simp
  have 2: "dm_collector_c_enable_logs example_env example_port
     (PySequence [PyString ''LTE_RRC_OTA_Packet'']) =
     (Inr True, example_port\<lparr>written := [ [3, 0xC0, 0x7e] ]\<rparr>)" by code_simp
  from non_strings_skipped[of example_env
      "[PyNonString, PyString ''LTE_RRC_OTA_Packet'', PyNonString]" "[]" example_port]
  show ?thesis unfolding 1 using 2 by simp
qed

text \<open>
  Claim C8. The claim is that an outbound call on an object without the capability the path
  needs, which is \<^verbatim>\<open>write\<close>, raises \<^verbatim>\<open>TypeError\<close>. \<^verbatim>\<open>disable_logs\<close> and \<^verbatim>\<open>enable_logs\<close>
  test the port for \<^verbatim>\<open>read\<close> only: an object that has \<^verbatim>\<open>read\<close> and no \<^verbatim>\<open>write\<close> passes
  \<^verbatim>\<open>check_serial_port\<close>, and the call of its \<^verbatim>\<open>write\<close> method for the first command that
  encodes fails inside \<^verbatim>\<open>send_msg\<close>, where \<^verbatim>\<open>Py_DECREF\<close> meets the null pointer. No
  \<^verbatim>\<open>TypeError\<close> is raised.
\<close>

theorem port_without_write_not_rejected:
  assumes "has_read port" and "\<not> has_write port"
  shows "(encodes e (DISABLE, []) \<longrightarrow>
            dm_collector_c_disable_logs e port = (Inl NullDereference, port)) \<and>
         (resolve_names e type_names [] = Inr type_ids \<and> enable_commands e type_ids \<noteq> [] \<and>
          encodes e (hd (enable_commands e type_ids)) \<longrightarrow>
            dm_collector_c_enable_logs e port (PySequence type_names) =
              (Inl NullDereference, port))"
proof -
  have a: "dm_collector_c_disable_logs e port = (Inl NullDereference, port)"
    if "encodes e (DISABLE, [])"
    using assms that
    by (auto simp: dm_collector_c_disable_logs_def check_serial_port_def encodes_def
        send_msg_def Let_def)
  have b: "dm_collector_c_enable_logs e port (PySequence type_names) =
      (Inl NullDereference, port)"
    if res: "resolve_names e type_names [] = Inr type_ids"
      and ne: "enable_commands e type_ids \<noteq> []"
      and enc: "encodes e (hd (enable_commands e type_ids))"
  proof -
    from ne obtain c cs where cs: "enable_commands e type_ids = c # cs"
      by (cases "enable_commands e type_ids") auto
    obtain opn ids where c: "c = (opn, ids)" by (cases c)
    from enc cs c assms(2) have "send_log_config e opn ids port = (Inl NullDereference, port)"
      by (simp add: send_log_config_no_write)
    with cs c have "send_commands e (enable_commands e type_ids) port = (Inl NullDereference, port)"
      by simp
    with assms(1) res show ?thesis
      by (simp add: enable_logs_commands check_serial_port_def)
  qed
  from a b show ?thesis by blast
qed

text \<open>An object with \<^verbatim>\<open>read\<close> and without \<^verbatim>\<open>write\<close>, given as port.\<close>

theorem port_without_write_not_rejected_witness:
  "has_read read_only_object \<and> \<not> has_write read_only_object \<and>
   encodes example_env (DISABLE, []) \<and>
   resolve_names example_env [PyString ''LTE_RRC_OTA_Packet''] [] = Inr [0xB0C0] \<and>
   enable_commands example_env [0xB0C0] = [(SET_MASK, [0xB0C0])] \<and>
   encodes example_env (SET_MASK, [0xB0C0]) \<and>
   dm_collector_c_disable_logs example_env read_only_object =
     (Inl NullDereference, read_only_object) \<and>
   dm_collector_c_enable_logs example_env read_only_object
     (PySequence [PyString ''LTE_RRC_OTA_Packet'']) = (Inl NullDereference, read_only_object)"
proof -
  have 1: "has_read read_only_object" "\<not> has_write read_only_object" by code_simp+
  have 2: "encodes example_env (DISABLE, [])" by code_simp
  have 3: "resolve_names example_env [PyString ''LTE_RRC_OTA_Packet''] [] = Inr [0xB0C0]"
    by code_simp
  have 4: "enable_commands example_env [0xB0C0] = [(SET_MASK, [0xB0C0])]" by code_simp
  have 5: "encodes example_env (SET_MASK, [0xB0C0])" by code_simp
  from port_without_write_not_rejected[OF 1, of example_env
      "[PyString ''LTE_RRC_OTA_Packet'']" "[0xB0C0]"] 1 2 3 4 5
  show ?thesis by simp
qed

end
